theory Spec2Isabelle
  imports Complex_Main
begin

section \<open>Strings and the JavaScript Map\<close>

text \<open>
  JavaScript strings are modelled as \<^typ>\<open>string\<close>, one \<^typ>\<open>char\<close> per code unit, which
  covers text whose code units are below 256 (URLs and platform keys are ASCII). A
  JavaScript \<open>Map\<close> iterates in insertion order, and \<open>set\<close> on an existing key keeps that
  key's slot: it is an association list. \<open>map_delete\<close> is the map's \<open>delete\<close>.
\<close>

definition lowerChar :: "char \<Rightarrow> char" where
  "lowerChar c =
     (let n = (of_char c :: nat)
      in if (65 \<le> n \<and> n \<le> 90) \<or> (192 \<le> n \<and> n \<le> 222 \<and> n \<noteq> 215) then char_of (n + 32) else c)"

definition toLowerCase :: "string \<Rightarrow> string" where
  "toLowerCase s = map lowerChar s"

fun startsWith :: "string \<Rightarrow> string \<Rightarrow> bool" where
  "startsWith s [] = True"
| "startsWith [] (p # ps) = False"
| "startsWith (c # cs) (p # ps) = (c = p \<and> startsWith cs ps)"

fun str_includes :: "string \<Rightarrow> string \<Rightarrow> bool" where
  "str_includes [] sub = (sub = [])"
| "str_includes (c # cs) sub = (startsWith (c # cs) sub \<or> str_includes cs sub)"

fun map_set :: "'k \<Rightarrow> 'v \<Rightarrow> ('k \<times> 'v) list \<Rightarrow> ('k \<times> 'v) list" where
  "map_set k v [] = [(k, v)]"
| "map_set k v ((k', v') # m) = (if k' = k then (k, v) # m else (k', v') # map_set k v m)"

fun map_get :: "('k \<times> 'v) list \<Rightarrow> 'k \<Rightarrow> 'v option" where
  "map_get [] k = None"
| "map_get ((k', v') # m) k = (if k' = k then Some v' else map_get m k)"

fun map_delete :: "'k \<Rightarrow> ('k \<times> 'v) list \<Rightarrow> ('k \<times> 'v) list" where
  "map_delete k [] = []"
| "map_delete k ((k', v') # m) = (if k' = k then m else (k', v') # map_delete k m)"

definition map_values :: "('k \<times> 'v) list \<Rightarrow> 'v list" where
  "map_values m = map snd m"

text \<open>White space as \<open>trim\<close> and the class \<open>\\s\<close> see it, among code units below 256.\<close>

definition isSpace :: "char \<Rightarrow> bool" where
  "isSpace c = ((of_char c :: nat) \<in> {9, 10, 11, 12, 13, 32, 160})"

text \<open>\<open>s.split(c)\<close> for a one-character separator, and \<open>arr[i]\<close> with \<open>undefined\<close> as \<open>None\<close>.\<close>

fun split_on :: "char \<Rightarrow> string \<Rightarrow> string list" where
  "split_on c [] = [[]]"
| "split_on c (x # xs) =
     (let r = split_on c xs in if x = c then [] # r else (x # hd r) # tl r)"

definition at_index :: "'a list \<Rightarrow> nat \<Rightarrow> 'a option" where
  "at_index xs i = (if i < length xs then Some (xs ! i) else None)"

text \<open>
  \<open>s.match(/LIT([^/?]+)/)\<close> for a literal \<open>LIT\<close>: the leftmost position where the literal is
  followed by at least one admitted character; the group is the longest run of them.
\<close>

fun match_group_after :: "string \<Rightarrow> (char \<Rightarrow> bool) \<Rightarrow> string \<Rightarrow> string option" where
  "match_group_after lit ok [] = None"
| "match_group_after lit ok (c # cs) =
     (let g = takeWhile ok (drop (length lit) (c # cs))
      in if startsWith (c # cs) lit \<and> g \<noteq> [] then Some g else match_group_after lit ok cs)"

text \<open>Errors thrown: the platform's \<open>TypeError\<close> and \<open>SyntaxError\<close>, and the program's own \<open>Error\<close>.\<close>

datatype js_error = TypeError string | SyntaxError string | Error string

fun anySuffix :: "(string \<Rightarrow> bool) \<Rightarrow> string \<Rightarrow> bool" where
  "anySuffix P [] = P []"
| "anySuffix P (c # cs) = (P (c # cs) \<or> anySuffix P cs)"

section \<open>The platform registry (HybridConfig)\<close>

text \<open>
  A recognition pattern is a regular expression used through \<open>pattern.test(url)\<close> only, so
  it is modelled by the predicate it computes on the URL string (patterns without the
  sticky and global flags, for which \<open>test\<close> keeps no position between calls).
  Priorities are the integers of the specification. The registry is the static map
  \<open>platforms\<close>, passed to each operation and returned by those that change it; what the
  operations write to the console is left out.
\<close>

type_synonym pattern = "string \<Rightarrow> bool"

record 'm PlatformConfig =
  name :: string
  module :: 'm
  patterns :: "pattern list"
  enabled :: bool
  priority :: int

type_synonym 'm platforms = "(string \<times> 'm PlatformConfig) list"

definition matchesPatterns :: "string \<Rightarrow> pattern list \<Rightarrow> bool" where
  "matchesPatterns url ps = list_ex (\<lambda>pattern. pattern url) ps"

text \<open>
  \<open>Array.prototype.sort\<close> is stable, and the comparator \<open>a.priority - b.priority\<close> orders by
  ascending priority: the result is the stable sort by the priority key.
\<close>

definition detectPlatform :: "string \<Rightarrow> 'm platforms \<Rightarrow> 'm PlatformConfig option" where
  "detectPlatform url ps =
     (let sortedPlatforms = sort_key priority (filter enabled (map_values ps))
      in find (\<lambda>platform. matchesPatterns url (patterns platform)) sortedPlatforms)"

definition getPlatform :: "string \<Rightarrow> 'm platforms \<Rightarrow> 'm PlatformConfig option" where
  "getPlatform nm ps = map_get ps (toLowerCase nm)"

definition setPlatformEnabled :: "string \<Rightarrow> bool \<Rightarrow> 'm platforms \<Rightarrow> 'm platforms" where
  "setPlatformEnabled nm b ps =
     (case map_get ps (toLowerCase nm) of
        None \<Rightarrow> ps
      | Some platform \<Rightarrow> map_set (toLowerCase nm) (platform\<lparr>enabled := b\<rparr>) ps)"

definition setPlatformPriority :: "string \<Rightarrow> int \<Rightarrow> 'm platforms \<Rightarrow> 'm platforms" where
  "setPlatformPriority nm n ps =
     (case map_get ps (toLowerCase nm) of
        None \<Rightarrow> ps
      | Some platform \<Rightarrow> map_set (toLowerCase nm) (platform\<lparr>priority := n\<rparr>) ps)"

definition addPlatformPattern :: "string \<Rightarrow> pattern \<Rightarrow> 'm platforms \<Rightarrow> 'm platforms" where
  "addPlatformPattern nm pat ps =
     (case map_get ps (toLowerCase nm) of
        None \<Rightarrow> ps
      | Some platform \<Rightarrow> map_set (toLowerCase nm) (platform\<lparr>patterns := patterns platform @ [pat]\<rparr>) ps)"

subsection \<open>Default patterns and registration\<close>

text \<open>
  The tests computed by the regular expressions of \<open>generateDefaultPatterns\<close>. Each of them
  looks for its text anywhere in the URL. \<open>followedBy lit ok\<close> is \<open>/lit(C+)/\<close> for the literal
  \<open>lit\<close> and the class \<open>C\<close> of the characters that \<open>ok\<close> admits; \<open>wildcardBetween\<close> is
  \<open>/lit1.*lit2(C+)/\<close>, where the dot stands for any character but a line terminator;
  \<open>followedToEnd\<close> is \<open>/lit(C+)$/\<close>.
\<close>

definition followedBy :: "string \<Rightarrow> (char \<Rightarrow> bool) \<Rightarrow> pattern" where
  "followedBy lit ok url = (match_group_after lit ok url \<noteq> None)"

definition isLineTerminator :: "char \<Rightarrow> bool" where
  "isLineTerminator c = ((of_char c :: nat) \<in> {10, 13})"

definition wildcardBetween :: "string \<Rightarrow> string \<Rightarrow> (char \<Rightarrow> bool) \<Rightarrow> pattern" where
  "wildcardBetween lit1 lit2 ok url =
     anySuffix (\<lambda>t. startsWith t lit1 \<and>
                     followedBy lit2 ok (takeWhile (\<lambda>c. \<not> isLineTerminator c) (drop (length lit1) t))) url"

definition followedToEnd :: "string \<Rightarrow> (char \<Rightarrow> bool) \<Rightarrow> pattern" where
  "followedToEnd lit ok url =
     anySuffix (\<lambda>t. startsWith t lit \<and> drop (length lit) t \<noteq> [] \<and> list_all ok (drop (length lit) t)) url"

definition isDigit :: "char \<Rightarrow> bool" where
  "isDigit c = (let n = (of_char c :: nat) in 48 \<le> n \<and> n \<le> 57)"

definition notAmpOrSpace :: "char \<Rightarrow> bool" where
  "notAmpOrSpace c = (c \<noteq> CHR ''&'' \<and> \<not> isSpace c)"

definition notAmpSpaceOrSlash :: "char \<Rightarrow> bool" where
  "notAmpSpaceOrSlash c = (c \<noteq> CHR ''&'' \<and> \<not> isSpace c \<and> c \<noteq> CHR ''/'')"

text \<open>
  For a name outside the table the pattern is \<open>new RegExp(name + '\\.com', 'i')\<close>, with the
  lower-cased name as it is inside the expression. The constructor is the platform's: it
  is the parameter \<open>RegExp_i\<close>, from the source text to the test of the expression built
  with the flag \<open>i\<close>, or \<open>None\<close> where the constructor throws a \<open>SyntaxError\<close>.
\<close>

type_synonym RegExp_ctor = "string \<Rightarrow> pattern option"

definition generateDefaultPatterns :: "RegExp_ctor \<Rightarrow> string \<Rightarrow> js_error + pattern list" where
  "generateDefaultPatterns RegExp_i plat =
     (let platformLower = toLowerCase plat in
      if platformLower = ''youtube'' then
        Inr [\<lambda>url. followedBy ''youtube.com/watch?v='' notAmpOrSpace url \<or>
                   followedBy ''youtu.be/'' notAmpOrSpace url,
             followedBy ''youtube.com/embed/'' notAmpOrSpace,
             followedBy ''youtube.com/v/'' notAmpOrSpace]
      else if platformLower = ''facebook'' then
        Inr [wildcardBetween ''facebook.com/'' ''/videos/'' isDigit,
             followedBy ''fb.watch/'' notAmpOrSpace]
      else if platformLower = ''instagram'' then
        Inr [followedBy ''instagram.com/p/'' notAmpSpaceOrSlash,
             followedBy ''instagram.com/reel/'' notAmpSpaceOrSlash]
      else if platformLower = ''vimeo'' then
        Inr [followedBy ''vimeo.com/'' isDigit]
      else if platformLower = ''tiktok'' then
        Inr [wildcardBetween ''tiktok.com/'' ''/video/'' isDigit]
      else if platformLower = ''twitch'' then
        Inr [followedBy ''twitch.tv/videos/'' isDigit,
             followedToEnd ''twitch.tv/'' (\<lambda>c. c \<noteq> CHR ''/'')]
      else (case RegExp_i (platformLower @ [CHR 0x5C] @ ''.com'') of
              None \<Rightarrow> Inl (SyntaxError ''Invalid regular expression'')
            | Some pat \<Rightarrow> Inr [pat]))"

text \<open>
  \<open>registerPlatform\<close> stores the entry under the lower-cased name. Patterns that are given
  are taken as they are, an empty list too; otherwise the default patterns are built,
  which may throw. An omitted priority is the default priority.
\<close>

definition defaultPriority :: int where
  "defaultPriority = 100"

definition registerPlatform ::
  "RegExp_ctor \<Rightarrow> string \<Rightarrow> 'm \<Rightarrow> pattern list option \<Rightarrow> int option \<Rightarrow>
   'm platforms \<Rightarrow> js_error + 'm platforms" where
  "registerPlatform RegExp_i nm m pats prio ps =
     (case (case pats of Some given \<Rightarrow> Inr given | None \<Rightarrow> generateDefaultPatterns RegExp_i nm) of
        Inl err \<Rightarrow> Inl err
      | Inr pats' \<Rightarrow>
          (let platformConfig =
                 \<lparr>name = nm, module = m, patterns = pats', enabled = True,
                  priority = (case prio of Some n \<Rightarrow> n | None \<Rightarrow> defaultPriority)\<rparr>
           in Inr (map_set (toLowerCase nm) platformConfig ps)))"

subsection \<open>Event subscription\<close>

text \<open>
  A subscriber is a callback on the payload with an effect on the rest of the program, here
  a state of type \<open>'w\<close>. A callback that throws has run up to the throw: it returns the
  state it left together with the error. Callbacks are taken not to subscribe or
  unsubscribe while an event is being published.
\<close>

type_synonym ('d, 'w) handler = "'d \<Rightarrow> 'w \<Rightarrow> 'w \<times> string option"

record ('d, 'w) EventListener =
  event :: string
  platform :: string
  handler :: "('d, 'w) handler"

type_synonym ('d, 'w) listeners = "(string \<times> ('d, 'w) EventListener list) list"

definition listenerKey :: "string \<Rightarrow> string \<Rightarrow> string" where
  "listenerKey ev pl = ev @ '':'' @ pl"

definition addEventListener ::
  "string \<Rightarrow> string \<Rightarrow> ('d, 'w) handler \<Rightarrow> ('d, 'w) listeners \<Rightarrow> ('d, 'w) listeners" where
  "addEventListener ev pl h ls =
     (let key = listenerKey ev pl;
          ls1 = (if map_get ls key = None then map_set key [] ls else ls)
      in case map_get ls1 key of
           None \<Rightarrow> ls1
         | Some arr \<Rightarrow> map_set key (arr @ [\<lparr>event = ev, platform = pl, handler = h\<rparr>]) ls1)"

text \<open>The subscribers of a key, in subscription order: \<open>listeners.get(key)\<close>, if any.\<close>

definition subscribed :: "('d, 'w) listeners \<Rightarrow> string \<Rightarrow> string \<Rightarrow> ('d, 'w) EventListener list" where
  "subscribed ls ev pl = (case map_get ls (listenerKey ev pl) of None \<Rightarrow> [] | Some arr \<Rightarrow> arr)"

text \<open>
  The outcome of publishing: the error that reached the publisher, if any, the state the
  callbacks left, and what the \<open>catch\<close> block wrote to the console.
\<close>

record 'w emitted =
  thrown :: "string option"
  world :: 'w
  console_errors :: "string list"

fun forEach_listener :: "('d, 'w) EventListener list \<Rightarrow> 'd \<Rightarrow> 'w emitted \<Rightarrow> 'w emitted" where
  "forEach_listener [] d r = r"
| "forEach_listener (l # ls) d r =
     (case handler l d (world r) of
        (w', None) \<Rightarrow> forEach_listener ls d (r\<lparr>world := w'\<rparr>)
      | (w', Some err) \<Rightarrow>
          forEach_listener ls d (r\<lparr>world := w', console_errors := console_errors r @ [err]\<rparr>))"

definition emitEvent :: "string \<Rightarrow> string \<Rightarrow> 'd \<Rightarrow> ('d, 'w) listeners \<Rightarrow> 'w \<Rightarrow> 'w emitted" where
  "emitEvent ev pl d ls w =
     (let key = listenerKey ev pl;
          r0 = \<lparr>thrown = None, world = w, console_errors = []\<rparr>
      in case map_get ls key of
           None \<Rightarrow> r0
         | Some arr \<Rightarrow> forEach_listener arr d r0)"

section \<open>URLs and the YouTube module\<close>

text \<open>
  \<open>new URL(s)\<close> is the platform's constructor, not code of this repository: every
  function that calls it takes it as the parameter \<open>newURL\<close>, which yields the parts the
  code reads, or \<open>None\<close> where the constructor throws.
\<close>

record URL =
  protocol :: string
  hostname :: string
  pathname :: string
  searchParams :: "(string \<times> string) list"

type_synonym URL_ctor = "string \<Rightarrow> URL option"

definition InvalidReference :: js_error where
  "InvalidReference = Error ''Invalid YouTube URL: Could not extract video ID''"

definition not_slash_or_query :: "char \<Rightarrow> bool" where
  "not_slash_or_query c = (c \<noteq> CHR ''/'' \<and> c \<noteq> CHR ''?'')"

text \<open>The body of the \<open>try\<close> block of \<open>extractVideoId\<close>; the constructor may throw.\<close>

definition extractVideoId_try :: "URL_ctor \<Rightarrow> string \<Rightarrow> js_error + string option" where
  "extractVideoId_try newURL url =
     (case newURL url of
        None \<Rightarrow> Inl (TypeError ''Invalid URL'')
      | Some urlObj \<Rightarrow>
          (let host = toLowerCase (hostname urlObj) in
           if str_includes host ''youtu.be'' then
             (let pathParts = split_on CHR ''/'' (pathname urlObj)
              in case at_index pathParts 1 of
                   None \<Rightarrow> Inr None
                 | Some part \<Rightarrow> Inr (if part = [] then None else Some part))
           else if str_includes host ''youtube.com'' then
             (case map_get (searchParams urlObj) ''v'' of
                Some vParam \<Rightarrow>
                  if vParam \<noteq> [] then Inr (Some vParam)
                  else (case match_group_after ''/embed/'' not_slash_or_query (pathname urlObj) of
                          Some embedMatch \<Rightarrow> Inr (Some embedMatch)
                        | None \<Rightarrow> Inr (match_group_after ''/v/'' not_slash_or_query (pathname urlObj)))
              | None \<Rightarrow>
                  (case match_group_after ''/embed/'' not_slash_or_query (pathname urlObj) of
                     Some embedMatch \<Rightarrow> Inr (Some embedMatch)
                   | None \<Rightarrow> Inr (match_group_after ''/v/'' not_slash_or_query (pathname urlObj))))
           else Inr None))"

text \<open>
  \<open>extractVideoId\<close> with its \<open>catch\<close>: whatever the body throws is logged and the result is
  \<open>null\<close>. The result type still has a place for an error that would reach the caller.
\<close>

definition extractVideoId :: "URL_ctor \<Rightarrow> string \<Rightarrow> js_error + string option" where
  "extractVideoId newURL url =
     (case extractVideoId_try newURL url of
        Inl err \<Rightarrow> Inr None
      | Inr videoId \<Rightarrow> Inr videoId)"

text \<open>\<open>!videoId\<close>: \<open>null\<close> and the empty string are falsy.\<close>

definition falsy_str :: "string option \<Rightarrow> bool" where
  "falsy_str v = (case v of None \<Rightarrow> True | Some s \<Rightarrow> s = [])"

definition process :: "URL_ctor \<Rightarrow> string \<Rightarrow> js_error + string" where
  "process newURL url =
     (case extractVideoId newURL url of
        Inl err \<Rightarrow> Inl err
      | Inr videoId \<Rightarrow>
          if falsy_str videoId then Inl InvalidReference
          else Inr (''https://www.youtube.com/embed/'' @ the videoId @ ''?autoplay=1&enablejsapi=1''))"

record EmbedData =
  embed_url :: string
  embed_html :: "string option"
  embed_width :: "nat option"
  embed_height :: "nat option"

definition generateEmbedHtml :: "string \<Rightarrow> string" where
  "generateEmbedHtml videoId =
     [CHR 0x0A] @ ''      <iframe '' @
     [CHR 0x0A] @ ''        width=\"100%\" '' @
     [CHR 0x0A] @ ''        height=\"100%\" '' @
     [CHR 0x0A] @ ''        src=\"https://www.youtube.com/embed/'' @ videoId @ ''?autoplay=1\" '' @
     [CHR 0x0A] @ ''        frameborder=\"0\" '' @
     [CHR 0x0A] @ ''        allow=\"accelerometer; autoplay; clipboard-write; encrypted-media; gyroscope; picture-in-picture\" '' @
     [CHR 0x0A] @ ''        allowfullscreen'' @
     [CHR 0x0A] @ ''      ></iframe>'' @
     [CHR 0x0A] @ ''    ''"

definition getEmbedData :: "URL_ctor \<Rightarrow> string \<Rightarrow> js_error + EmbedData" where
  "getEmbedData newURL url =
     (case extractVideoId newURL url of
        Inl err \<Rightarrow> Inl err
      | Inr videoId \<Rightarrow>
          if falsy_str videoId then Inl InvalidReference
          else Inr \<lparr>embed_url = ''https://www.youtube.com/embed/'' @ the videoId @ ''?autoplay=1'',
                    embed_html = Some (generateEmbedHtml (the videoId)),
                    embed_width = Some 560, embed_height = Some 315\<rparr>)"

section \<open>Link extraction (LinkProcessor and FileLinkReader)\<close>

definition trim :: "string \<Rightarrow> string" where
  "trim s = rev (dropWhile isSpace (rev (dropWhile isSpace s)))"

definition endsWith :: "string \<Rightarrow> string \<Rightarrow> bool" where
  "endsWith s suf = startsWith (rev s) (rev suf)"

text \<open>\<open>s.replace(/[.,;:!?)]+$/, '')\<close>: the trailing run of punctuation is removed.\<close>

definition stripTrailingPunctuation :: "string \<Rightarrow> string" where
  "stripTrailingPunctuation s = rev (dropWhile (\<lambda>c. c \<in> set ''.,;:!?)'') (rev s))"

text \<open>
  The global expression \<open>/(https?:\\/\\/[^\\s]+)/g\<close>, and its variant that also stops at a
  closing parenthesis: every match from left to right, the search resuming where the
  previous match ended. A match is the scheme prefix followed by the longest non-empty run
  of admitted characters; \<open>stop\<close> tells the characters that end the run.
\<close>

definition schemePrefixLength :: "string \<Rightarrow> nat" where
  "schemePrefixLength s =
     (if startsWith s ''https://'' then 8 else if startsWith s ''http://'' then 7 else 0)"

function matchAllUrls :: "(char \<Rightarrow> bool) \<Rightarrow> string \<Rightarrow> string list" where
  "matchAllUrls stop [] = []"
| "matchAllUrls stop (c # cs) =
     (if 0 < schemePrefixLength (c # cs) \<and>
         takeWhile (\<lambda>x. \<not> stop x) (drop (schemePrefixLength (c # cs)) (c # cs)) \<noteq> []
      then (take (schemePrefixLength (c # cs)) (c # cs) @
              takeWhile (\<lambda>x. \<not> stop x) (drop (schemePrefixLength (c # cs)) (c # cs)))
           # matchAllUrls stop
               (drop (schemePrefixLength (c # cs) +
                      length (takeWhile (\<lambda>x. \<not> stop x) (drop (schemePrefixLength (c # cs)) (c # cs))))
                  (c # cs))
      else matchAllUrls stop cs)"
  by pat_completeness auto
termination
  by (relation "measure (\<lambda>(stop, s). length s)") auto

text \<open>
  The global expression \<open>/\\[([^\\]]+)\\]\\(([^)]+)\\)/g\<close>. At a position holding an opening
  bracket the text runs to the first closing bracket, which must be followed by an opening
  parenthesis, and the target runs to the first closing parenthesis; both are non-empty.
  \<open>markdownLinkAt\<close> gives the target and the length of the whole match.
\<close>

definition markdownLinkAt :: "string \<Rightarrow> (string \<times> nat) option" where
  "markdownLinkAt s =
     (if startsWith s ''['' then
        (let linkText = takeWhile (\<lambda>c. c \<noteq> CHR '']'') (drop 1 s);
             rest = drop (1 + length linkText) s;
             target = takeWhile (\<lambda>c. c \<noteq> CHR '')'') (drop 2 rest);
             rest2 = drop (2 + length target) rest
         in if linkText \<noteq> [] \<and> startsWith rest '']('' \<and> target \<noteq> [] \<and> startsWith rest2 '')''
            then Some (target, 1 + length linkText + 2 + length target + 1)
            else None)
      else None)"

function matchAllMarkdownLinks :: "string \<Rightarrow> string list" where
  "matchAllMarkdownLinks [] = []"
| "matchAllMarkdownLinks (c # cs) =
     (case markdownLinkAt (c # cs) of
        Some (target, n) \<Rightarrow> target # matchAllMarkdownLinks (drop n (c # cs))
      | None \<Rightarrow> matchAllMarkdownLinks cs)"
  by pat_completeness auto
termination
  by (relation "measure length") (auto simp: markdownLinkAt_def Let_def split: if_splits)

definition isValidUrl :: "URL_ctor \<Rightarrow> string \<Rightarrow> bool" where
  "isValidUrl newURL url =
     (case newURL url of
        None \<Rightarrow> False
      | Some urlObj \<Rightarrow> protocol urlObj = ''http:'' \<or> protocol urlObj = ''https:'')"

subsection \<open>Plain text\<close>

definition readTextLine :: "URL_ctor \<Rightarrow> string \<Rightarrow> string list" where
  "readTextLine newURL line =
     (let trimmedLine = trim line in
      if trimmedLine = [] \<or> startsWith trimmedLine ''#'' \<or> startsWith trimmedLine ''//'' then []
      else if isValidUrl newURL trimmedLine then [trimmedLine]
      else filter (isValidUrl newURL) (map stripTrailingPunctuation (matchAllUrls isSpace trimmedLine)))"

definition readTextUrls :: "URL_ctor \<Rightarrow> string \<Rightarrow> string list" where
  "readTextUrls newURL content = concat (map (readTextLine newURL) (split_on (CHR 0x0A) content))"

subsection \<open>Markdown\<close>

definition markdownLinkPass :: "URL_ctor \<Rightarrow> string \<Rightarrow> string list" where
  "markdownLinkPass newURL content = filter (isValidUrl newURL) (matchAllMarkdownLinks content)"

fun plainUrlPass :: "URL_ctor \<Rightarrow> string list \<Rightarrow> string list \<Rightarrow> string list" where
  "plainUrlPass newURL [] urls = urls"
| "plainUrlPass newURL (m # ms) urls =
     (let url = stripTrailingPunctuation m
      in if isValidUrl newURL url \<and> url \<notin> set urls
         then plainUrlPass newURL ms (urls @ [url])
         else plainUrlPass newURL ms urls)"

definition readMarkdownUrls :: "URL_ctor \<Rightarrow> string \<Rightarrow> string list" where
  "readMarkdownUrls newURL content =
     plainUrlPass newURL (matchAllUrls (\<lambda>c. isSpace c \<or> c = CHR '')'') content)
       (markdownLinkPass newURL content)"

subsection \<open>JSON\<close>

text \<open>
  \<open>JSON.parse\<close> is the platform's: the parameter \<open>JSON_parse\<close> yields the parsed value, or
  \<open>None\<close> where it throws a \<open>SyntaxError\<close>. An object lists its properties in the order
  in which \<open>for ... in\<close> enumerates them.
\<close>

datatype json =
    JNull
  | JBool bool
  | JNum rat
  | JStr string
  | JArr "json list"
  | JObj "(string \<times> json) list"

type_synonym JSON_parser = "string \<Rightarrow> json option"

definition truthy :: "json option \<Rightarrow> bool" where
  "truthy v =
     (case v of
        None \<Rightarrow> False
      | Some JNull \<Rightarrow> False
      | Some (JBool b) \<Rightarrow> b
      | Some (JNum n) \<Rightarrow> n \<noteq> 0
      | Some (JStr s) \<Rightarrow> s \<noteq> []
      | Some (JArr xs) \<Rightarrow> True
      | Some (JObj kvs) \<Rightarrow> True)"

definition isUrlString :: "URL_ctor \<Rightarrow> json \<Rightarrow> bool" where
  "isUrlString newURL item = (case item of JStr s \<Rightarrow> isValidUrl newURL s | _ \<Rightarrow> False)"

definition stringOf :: "json \<Rightarrow> string" where
  "stringOf item = (case item of JStr s \<Rightarrow> s | _ \<Rightarrow> [])"

definition filterUrlStrings :: "URL_ctor \<Rightarrow> json list \<Rightarrow> string list" where
  "filterUrlStrings newURL items = map stringOf (filter (isUrlString newURL) items)"

text \<open>
  \<open>extractUrlsFromObject\<close> pushes onto the list it is given; the model returns what one call
  pushes, in order. \<open>propertyUrls\<close> is the body of the \<open>for ... in\<close> loop for one property
  value and \<open>itemUrls\<close> the body of the inner \<open>forEach\<close>. Enumerating a string gives its
  characters, and \<open>null\<close>, numbers and booleans have nothing to enumerate.
\<close>

fun extractUrlsFromObject :: "URL_ctor \<Rightarrow> json \<Rightarrow> string list"
  and propertyUrls :: "URL_ctor \<Rightarrow> json \<Rightarrow> string list"
  and itemUrls :: "URL_ctor \<Rightarrow> json \<Rightarrow> string list"
  and propertiesUrls :: "URL_ctor \<Rightarrow> (string \<times> json) list \<Rightarrow> string list"
  and elementsUrls :: "URL_ctor \<Rightarrow> json list \<Rightarrow> string list"
  and itemsUrls :: "URL_ctor \<Rightarrow> json list \<Rightarrow> string list" where
  "extractUrlsFromObject newURL (JObj kvs) = propertiesUrls newURL kvs"
| "extractUrlsFromObject newURL (JArr xs) = elementsUrls newURL xs"
| "extractUrlsFromObject newURL (JStr s) = concat (map (\<lambda>c. if isValidUrl newURL [c] then [[c]] else []) s)"
| "extractUrlsFromObject newURL JNull = []"
| "extractUrlsFromObject newURL (JBool b) = []"
| "extractUrlsFromObject newURL (JNum n) = []"
| "propertyUrls newURL (JStr s) = (if isValidUrl newURL s then [s] else [])"
| "propertyUrls newURL (JArr xs) = itemsUrls newURL xs"
| "propertyUrls newURL (JObj kvs) = propertiesUrls newURL kvs"
| "propertyUrls newURL JNull = []"
| "propertyUrls newURL (JBool b) = []"
| "propertyUrls newURL (JNum n) = []"
| "itemUrls newURL (JStr s) = (if isValidUrl newURL s then [s] else [])"
| "itemUrls newURL (JObj kvs) = propertiesUrls newURL kvs"
| "itemUrls newURL (JArr xs) = elementsUrls newURL xs"
| "itemUrls newURL JNull = []"
| "itemUrls newURL (JBool b) = []"
| "itemUrls newURL (JNum n) = []"
| "propertiesUrls newURL [] = []"
| "propertiesUrls newURL (kv # kvs) = propertyUrls newURL (snd kv) @ propertiesUrls newURL kvs"
| "elementsUrls newURL [] = []"
| "elementsUrls newURL (x # xs) = propertyUrls newURL x @ elementsUrls newURL xs"
| "itemsUrls newURL [] = []"
| "itemsUrls newURL (x # xs) = itemUrls newURL x @ itemsUrls newURL xs"

text \<open>
  The body of the \<open>try\<close> block of \<open>readJsonUrls\<close>. It throws where \<open>JSON.parse\<close> does, and
  where the parsed value is \<open>null\<close>, whose type is \<open>object\<close> and whose properties cannot be
  read.
\<close>

definition readJsonUrls_try :: "URL_ctor \<Rightarrow> JSON_parser \<Rightarrow> string \<Rightarrow> js_error + string list" where
  "readJsonUrls_try newURL JSON_parse content =
     (case JSON_parse content of
        None \<Rightarrow> Inl (SyntaxError ''Unexpected token'')
      | Some (JArr items) \<Rightarrow> Inr (filterUrlStrings newURL items)
      | Some JNull \<Rightarrow> Inl (TypeError ''Cannot read properties of null'')
      | Some (JObj kvs) \<Rightarrow>
          (let urlsArray =
                 (if truthy (map_get kvs ''urls'') then map_get kvs ''urls''
                  else if truthy (map_get kvs ''videos'') then map_get kvs ''videos''
                  else if truthy (map_get kvs ''links'') then map_get kvs ''links''
                  else Some (JArr []))
           in case urlsArray of
                Some (JArr items) \<Rightarrow> Inr (filterUrlStrings newURL items)
              | _ \<Rightarrow> Inr (extractUrlsFromObject newURL (JObj kvs)))
      | Some _ \<Rightarrow> Inr [])"

definition readJsonUrls :: "URL_ctor \<Rightarrow> JSON_parser \<Rightarrow> string \<Rightarrow> js_error + string list" where
  "readJsonUrls newURL JSON_parse content =
     (case readJsonUrls_try newURL JSON_parse content of
        Inl err \<Rightarrow> Inr []
      | Inr urls \<Rightarrow> Inr urls)"

subsection \<open>The processor\<close>

definition cleanUrl :: "string \<Rightarrow> string" where
  "cleanUrl url = trim (stripTrailingPunctuation url)"

definition videoPlatforms :: "string list" where
  "videoPlatforms =
     [''youtube.com'', ''youtu.be'', ''facebook.com'', ''fb.watch'', ''instagram.com'', ''vimeo.com'',
      ''tiktok.com'', ''twitch.tv'', ''dailymotion.com'', ''streamable.com'', ''video'']"

definition videoExtensions :: "string list" where
  "videoExtensions = [''.mp4'', ''.webm'', ''.ogg'', ''.mov'', ''.avi'', ''.mkv'']"

definition isValidVideoUrl :: "URL_ctor \<Rightarrow> string \<Rightarrow> bool" where
  "isValidVideoUrl newURL url =
     (case newURL url of
        None \<Rightarrow> False
      | Some urlObj \<Rightarrow>
          list_ex (\<lambda>p. str_includes (toLowerCase (hostname urlObj)) p) videoPlatforms \<or>
          list_ex (\<lambda>ext. endsWith (toLowerCase (pathname urlObj)) ext) videoExtensions)"

definition extractUrlsFromText :: "URL_ctor \<Rightarrow> string \<Rightarrow> string list" where
  "extractUrlsFromText newURL content =
     filter (isValidVideoUrl newURL) (map cleanUrl (matchAllUrls isSpace content))"

text \<open>\<open>fileName.match(/\\.[^.]+$/)\<close>: the last dot and what follows it, when that is not empty.\<close>

definition getFileExtension :: "string \<Rightarrow> string" where
  "getFileExtension fileName =
     (let afterDot = rev (takeWhile (\<lambda>c. c \<noteq> CHR ''.'') (rev fileName))
      in if afterDot \<noteq> [] \<and> length afterDot < length fileName
         then toLowerCase (CHR ''.'' # afterDot)
         else [])"

definition extractUrls :: "URL_ctor \<Rightarrow> JSON_parser \<Rightarrow> string \<Rightarrow> string \<Rightarrow> js_error + string list" where
  "extractUrls newURL JSON_parse content fileName =
     (let extension = getFileExtension fileName in
      if extension = ''.json'' then readJsonUrls newURL JSON_parse content
      else if extension = ''.md'' then Inr (readMarkdownUrls newURL content)
      else if extension = ''.txt'' then Inr (readTextUrls newURL content)
      else Inr (extractUrlsFromText newURL content))"

section \<open>The module table (PlatformModules)\<close>

record PlatformModule =
  mod_name :: string
  mod_process :: "string \<Rightarrow> js_error + string"
  mod_getEmbedData :: "string \<Rightarrow> js_error + EmbedData"
  mod_extractVideoId :: "string \<Rightarrow> js_error + string option"

definition YouTubeModule :: "URL_ctor \<Rightarrow> PlatformModule" where
  "YouTubeModule ctor =
     \<lparr>mod_name = ''YouTube'', mod_process = process ctor,
      mod_getEmbedData = getEmbedData ctor, mod_extractVideoId = extractVideoId ctor\<rparr>"

type_synonym modules = "(string \<times> PlatformModule) list"

text \<open>
  \<open>registerModule\<close> enters the module in the table and then registers the platform, with
  default patterns and priority, in the registry; if that throws, the table keeps the new
  entry. The table is filled when the file is loaded (\<open>initialize\<close> runs on import and
  registers the YouTube module), so the call of \<open>initialize\<close> in \<open>getModule\<close> finds it
  initialised: \<open>initialize\<close> below is that first run, from the empty table and registry.
\<close>

definition registerModule ::
  "RegExp_ctor \<Rightarrow> string \<Rightarrow> PlatformModule \<Rightarrow> modules \<times> PlatformModule platforms \<Rightarrow>
   js_error option \<times> modules \<times> PlatformModule platforms" where
  "registerModule RegExp_i plat m st =
     (let ms = map_set (toLowerCase plat) m (fst st)
      in case registerPlatform RegExp_i plat m None None (snd st) of
           Inl err \<Rightarrow> (Some err, ms, snd st)
         | Inr ps \<Rightarrow> (None, ms, ps))"

definition initialize :: "RegExp_ctor \<Rightarrow> URL_ctor \<Rightarrow> modules \<times> PlatformModule platforms" where
  "initialize RegExp_i ctor = snd (registerModule RegExp_i ''YouTube'' (YouTubeModule ctor) ([], []))"

definition getModule :: "modules \<Rightarrow> string \<Rightarrow> PlatformModule option" where
  "getModule ms plat = map_get ms (toLowerCase plat)"

section \<open>The deployment core (LinkDeployerCore)\<close>

datatype DeployMode = EMBED | VIDEO_STAGE

datatype DeployType = TypeUrl | TypeFile

text \<open>A selected file: its name, and the text the reader yields (\<open>None\<close>: the read fails).\<close>

record File =
  file_name :: string
  file_text :: "string option"

record DeployerData =
  data_type :: DeployType
  data_mode :: DeployMode
  data_url :: "string option"
  data_file :: "File option"
  data_fileContent :: "string option"
  data_urls :: "string list option"
  data_platform :: "string option"

text \<open>
  What the three parameters of the platform and of the program around the core are: the
  URL constructor, the JSON parser, and the module table.
\<close>

record runtime =
  newURL :: URL_ctor
  JSON_parse :: JSON_parser
  modules :: modules

datatype stage_action = SetSource string | Load | PlayOnCanplay

datatype console_entry = ConsoleLog string | ConsoleError string

text \<open>
  The closure \<open>playNext\<close> that \<open>setupVideoPlaylist\<close> registers: the list it captured and its
  own counter.
\<close>

record playNext_closure =
  playlist_urls :: "string list"
  currentIndex :: nat

text \<open>
  Everything the core acts on: whether the stage's video and source elements exist, the
  source the stage was last given, the calls it received, the listeners of its \<open>ended\<close>
  event in the order they were added, the embed windows created, the calls of the
  \<open>onDeploy\<close> callback, the console, and the core's own two fields.
\<close>

record deployer =
  videoElement :: bool
  sourceElement :: bool
  source_src :: "string option"
  stage_calls :: "stage_action list"
  ended_listeners :: "playNext_closure list"
  embed_windows :: "EmbedData list"
  onDeploy_calls :: "DeployerData list"
  console :: "console_entry list"
  selectedFile :: "File option"
  currentUrl :: string

definition validateUrl :: "URL_ctor \<Rightarrow> string \<Rightarrow> bool" where
  "validateUrl ctor url = (if trim url = [] then False else ctor url \<noteq> None)"

definition coreDetectPlatform :: "URL_ctor \<Rightarrow> string \<Rightarrow> string option" where
  "coreDetectPlatform ctor url =
     (case ctor url of
        None \<Rightarrow> None
      | Some urlObj \<Rightarrow>
          (let host = toLowerCase (hostname urlObj) in
           if str_includes host ''youtube.com'' \<or> str_includes host ''youtu.be'' then Some ''YouTube''
           else if str_includes host ''facebook.com'' \<or> str_includes host ''fb.watch'' then Some ''Facebook''
           else if str_includes host ''instagram.com'' then Some ''Instagram''
           else if str_includes host ''vimeo.com'' then Some ''Vimeo''
           else if str_includes host ''tiktok.com'' then Some ''TikTok''
           else if str_includes host ''twitch.tv'' then Some ''Twitch''
           else if str_includes host ''dailymotion.com'' then Some ''Dailymotion''
           else Some ''Generic''))"

text \<open>\<open>platform || 'Generic'\<close>, and \<open>platform\<close> inside a template string.\<close>

definition orGeneric :: "string option \<Rightarrow> string" where
  "orGeneric plat = (case plat of None \<Rightarrow> ''Generic'' | Some p \<Rightarrow> if p = [] then ''Generic'' else p)"

definition showPlatform :: "string option \<Rightarrow> string" where
  "showPlatform plat = (case plat of None \<Rightarrow> ''null'' | Some p \<Rightarrow> p)"

fun showNat :: "nat \<Rightarrow> string" where
  "showNat n =
     (if n < 10 then [char_of (48 + n)] else showNat (n div 10) @ [char_of (48 + n mod 10)])"

declare showNat.simps [simp del]

definition canDeploy :: "deployer \<Rightarrow> bool" where
  "canDeploy d = (currentUrl d \<noteq> [] \<or> selectedFile d \<noteq> None)"

definition deployToVideoStage :: "runtime \<Rightarrow> string \<Rightarrow> string option \<Rightarrow> deployer \<Rightarrow> deployer" where
  "deployToVideoStage rt url plat d =
     (if \<not> videoElement d \<or> \<not> sourceElement d
      then d\<lparr>console := console d @ [ConsoleError ''Video stage elements not found'']\<rparr>
      else case getModule (modules rt) (orGeneric plat) of
             None \<Rightarrow> d
           | Some m \<Rightarrow>
               (case mod_process m url of
                  Inr playableUrl \<Rightarrow>
                    d\<lparr>source_src := Some playableUrl,
                      stage_calls := stage_calls d @ [SetSource playableUrl, Load, PlayOnCanplay],
                      console := console d @ [ConsoleLog (''Deployed '' @ showPlatform plat @ '' video to stage:'')]\<rparr>
                | Inl err \<Rightarrow>
                    d\<lparr>console := console d @ [ConsoleError (''Error processing '' @ showPlatform plat @ '' URL:'')]\<rparr>))"

definition deployToEmbed :: "runtime \<Rightarrow> string \<Rightarrow> string option \<Rightarrow> deployer \<Rightarrow> deployer" where
  "deployToEmbed rt url plat d =
     (case getModule (modules rt) (orGeneric plat) of
        None \<Rightarrow> d
      | Some m \<Rightarrow>
          (case mod_getEmbedData m url of
             Inr embedData \<Rightarrow>
               d\<lparr>embed_windows := embed_windows d @ [embedData],
                 console := console d @ [ConsoleLog (''Deployed '' @ showPlatform plat @ '' video to embed:'')]\<rparr>
           | Inl err \<Rightarrow>
               d\<lparr>console := console d @ [ConsoleError (''Error creating embed for '' @ showPlatform plat @ '':'')]\<rparr>))"

definition deploySingleUrl :: "runtime \<Rightarrow> string \<Rightarrow> DeployMode \<Rightarrow> string option \<Rightarrow> deployer \<Rightarrow> deployer" where
  "deploySingleUrl rt url mode plat d =
     (let deployerData =
            \<lparr>data_type = TypeUrl, data_mode = mode, data_url = Some url, data_file = None,
             data_fileContent = None, data_urls = None, data_platform = Some (orGeneric plat)\<rparr>;
          d1 = (if mode = VIDEO_STAGE then deployToVideoStage rt url plat d
                else deployToEmbed rt url plat d)
      in d1\<lparr>onDeploy_calls := onDeploy_calls d1 @ [deployerData]\<rparr>)"

definition setupVideoPlaylist :: "string list \<Rightarrow> deployer \<Rightarrow> deployer" where
  "setupVideoPlaylist urls d =
     (if \<not> videoElement d then d
      else d\<lparr>ended_listeners := ended_listeners d @ [\<lparr>playlist_urls = urls, currentIndex = 0\<rparr>]\<rparr>)"

definition deployMultipleToVideoStage :: "runtime \<Rightarrow> string list \<Rightarrow> deployer \<Rightarrow> deployer" where
  "deployMultipleToVideoStage rt urls d =
     (let d0 = d\<lparr>console := console d @
                 [ConsoleLog (''Deploying '' @ showNat (length urls) @ '' videos to video stage with playlist'')]\<rparr>;
          d1 = (if 0 < length urls
                then deployToVideoStage rt (urls ! 0) (coreDetectPlatform (newURL rt) (urls ! 0)) d0
                else d0)
      in if 1 < length urls then setupVideoPlaylist urls d1 else d1)"

definition deployMultipleToEmbed :: "runtime \<Rightarrow> string list \<Rightarrow> deployer \<Rightarrow> deployer" where
  "deployMultipleToEmbed rt urls d =
     (let d0 = d\<lparr>console := console d @
                 [ConsoleLog (''Deploying '' @ showNat (length urls) @ '' videos to embed with playlist'')]\<rparr>
      in if 0 < length urls
         then (let d1 = deployToEmbed rt (urls ! 0) (coreDetectPlatform (newURL rt) (urls ! 0)) d0
               in if 1 < length urls
                  then d1\<lparr>console := console d1 @
                         [ConsoleLog ''Playlist embed not yet implemented, playing first video only'']\<rparr>
                  else d1)
         else d0)"

text \<open>
  A deployment returns the error its promise is rejected with, if any, and the new state.
\<close>

definition deployFromFile :: "runtime \<Rightarrow> File \<Rightarrow> DeployMode \<Rightarrow> deployer \<Rightarrow> js_error option \<times> deployer" where
  "deployFromFile rt file mode d =
     (case file_text file of
        None \<Rightarrow>
          (Some (Error ''Failed to read file''),
           d\<lparr>console := console d @ [ConsoleError ''Error deploying from file:'']\<rparr>)
      | Some fileContent \<Rightarrow>
          (case extractUrls (newURL rt) (JSON_parse rt) fileContent (file_name file) of
             Inl err \<Rightarrow> (Some err, d\<lparr>console := console d @ [ConsoleError ''Error deploying from file:'']\<rparr>)
           | Inr urls \<Rightarrow>
               (let deployerData =
                      \<lparr>data_type = TypeFile, data_mode = mode, data_url = None, data_file = Some file,
                       data_fileContent = Some fileContent, data_urls = Some urls, data_platform = None\<rparr>;
                    d1 = (if 0 < length urls
                          then (if mode = VIDEO_STAGE then deployMultipleToVideoStage rt urls d
                                else deployMultipleToEmbed rt urls d)
                          else d)
                in (None, d1\<lparr>onDeploy_calls := onDeploy_calls d1 @ [deployerData]\<rparr>))))"

definition handleDeploy :: "runtime \<Rightarrow> DeployMode \<Rightarrow> deployer \<Rightarrow> js_error option \<times> deployer" where
  "handleDeploy rt mode d =
     (let plat = (if currentUrl d \<noteq> [] then coreDetectPlatform (newURL rt) (currentUrl d) else None) in
      if currentUrl d \<noteq> [] then (None, deploySingleUrl rt (currentUrl d) mode plat d)
      else case selectedFile d of
             Some file \<Rightarrow> deployFromFile rt file mode d
           | None \<Rightarrow> (None, d))"

subsection \<open>The stage's \<open>ended\<close> event\<close>

text \<open>
  \<open>playNext\<close> advances its counter and deploys the item it then points at, if there is one.
  The stage calls the listeners of \<open>ended\<close> in the order they were added; no listener adds
  or removes a listener of that event. Each \<open>playNext\<close> runs to its end before the next
  starts: what a listener does before its first suspension only reads the stage and
  advances its own counter, so the stage sees the same calls in the same order.
\<close>

definition playNext :: "runtime \<Rightarrow> playNext_closure \<Rightarrow> deployer \<Rightarrow> playNext_closure \<times> deployer" where
  "playNext rt cl d =
     (let i = currentIndex cl + 1;
          urls = playlist_urls cl
      in (cl\<lparr>currentIndex := i\<rparr>,
          if i < length urls
          then deployToVideoStage rt (urls ! i) (coreDetectPlatform (newURL rt) (urls ! i)) d
          else d))"

fun runEndedListeners ::
  "runtime \<Rightarrow> playNext_closure list \<Rightarrow> deployer \<Rightarrow> playNext_closure list \<times> deployer" where
  "runEndedListeners rt [] d = ([], d)"
| "runEndedListeners rt (cl # cls) d =
     (let (cl', d1) = playNext rt cl d;
          (cls', d2) = runEndedListeners rt cls d1
      in (cl' # cls', d2))"

definition fireEnded :: "runtime \<Rightarrow> deployer \<Rightarrow> deployer" where
  "fireEnded rt d =
     (let (cls, d1) = runEndedListeners rt (ended_listeners d) d
      in d1\<lparr>ended_listeners := cls\<rparr>)"

definition setCurrentUrl :: "string \<Rightarrow> deployer \<Rightarrow> deployer" where
  "setCurrentUrl url d = d\<lparr>currentUrl := url\<rparr>"

text \<open>
  What the dialog does to the core when the address field changes: it hands the text over
  only if \<open>validateUrl\<close> accepts it, and clears the core's address otherwise.
\<close>

definition handleUrlChange :: "URL_ctor \<Rightarrow> string \<Rightarrow> deployer \<Rightarrow> deployer" where
  "handleUrlChange ctor v d =
     (if trim v = [] then setCurrentUrl [] d
      else if validateUrl ctor v then setCurrentUrl v d
      else setCurrentUrl [] d)"

definition setSelectedFile :: "File option \<Rightarrow> deployer \<Rightarrow> deployer" where
  "setSelectedFile file d = d\<lparr>selectedFile := file\<rparr>"

definition reset :: "deployer \<Rightarrow> deployer" where
  "reset d = d\<lparr>selectedFile := None, currentUrl := []\<rparr>"

section \<open>Concrete inputs\<close>

text \<open>
  The closed examples below need a concrete URL constructor and JSON parser. \<open>plainURL\<close>
  reads the plain shape \<open>http(s)://host/path?query\<close>: a host of dot-separated labels of
  lower-case letters, a path and query of letters, digits and a few unreserved marks, no
  dot segment, no fragment. On such a string the platform's constructor succeeds with the
  parts given here. \<open>plainURL\<close> refuses every other string; for the strings without a scheme
  that the examples use as malformed input the platform's constructor throws as well, and
  beyond them the refusal is a restriction of this stand-in. The general theorems hold for
  every constructor and do not mention \<open>plainURL\<close>.
\<close>

definition hostChar :: "char \<Rightarrow> bool" where
  "hostChar c = (let n = (of_char c :: nat) in (97 \<le> n \<and> n \<le> 122) \<or> c = CHR ''.'')"

definition plainChar :: "char \<Rightarrow> bool" where
  "plainChar c =
     (let n = (of_char c :: nat)
      in (97 \<le> n \<and> n \<le> 122) \<or> (65 \<le> n \<and> n \<le> 90) \<or> (48 \<le> n \<and> n \<le> 57) \<or> c \<in> set ''/._-=&'')"

definition parseQueryPair :: "string \<Rightarrow> string \<times> string" where
  "parseQueryPair kv =
     (let k = takeWhile (\<lambda>c. c \<noteq> CHR ''='') kv in (k, drop (length k + 1) kv))"

definition parseQuery :: "string \<Rightarrow> (string \<times> string) list" where
  "parseQuery q = map parseQueryPair (filter (\<lambda>kv. kv \<noteq> []) (split_on CHR ''&'' q))"

definition plainURL :: URL_ctor where
  "plainURL s =
     (let n = schemePrefixLength s;
          rest = drop n s;
          host = takeWhile (\<lambda>c. c \<noteq> CHR ''/'' \<and> c \<noteq> CHR ''?'') rest;
          afterHost = drop (length host) rest;
          path = takeWhile (\<lambda>c. c \<noteq> CHR ''?'') afterHost;
          query = drop (length path + 1) afterHost
      in if n = 0 \<or> [] \<in> set (split_on CHR ''.'' host) \<or> \<not> list_all hostChar host \<or>
            \<not> list_all plainChar path \<or>
            \<not> list_all plainChar query \<or> ''.'' \<in> set (split_on CHR ''/'' path) \<or>
            ''..'' \<in> set (split_on CHR ''/'' path)
         then None
         else Some \<lparr>protocol = take (n - 2) s, hostname = host,
                     pathname = (if path = [] then ''/'' else path),
                     searchParams = parseQuery query\<rparr>)"

text \<open>
  \<open>tableJSON\<close> stands for \<open>JSON.parse\<close> on the three texts the examples use: an array with a
  repeated string, an object with the property \<open>urls\<close>, and a text that is not JSON.
\<close>

definition tableJSON :: JSON_parser where
  "tableJSON s =
     (if s = ''[\"https://a.com/x\", \"https://a.com/x\"]''
      then Some (JArr [JStr ''https://a.com/x'', JStr ''https://a.com/x''])
      else if s = ''{\"urls\": [\"https://a.com/x\", \"not a url\", \"https://b.com/y\"]}''
      then Some (JObj [(''urls'', JArr [JStr ''https://a.com/x'', JStr ''not a url'', JStr ''https://b.com/y''])])
      else None)"

text \<open>
  \<open>nameRegExp\<close> stands for the regular-expression constructor on the sources the examples
  need: a name of letters and digits followed by \<open>\\.com\<close>, whose test with the flag \<open>i\<close>
  looks for the name and \<open>.com\<close> anywhere in the text, whatever the case of the letters.
\<close>

definition isAlnum :: "char \<Rightarrow> bool" where
  "isAlnum c =
     (let n = (of_char c :: nat)
      in (97 \<le> n \<and> n \<le> 122) \<or> (65 \<le> n \<and> n \<le> 90) \<or> (48 \<le> n \<and> n \<le> 57))"

definition nameRegExp :: RegExp_ctor where
  "nameRegExp src =
     (let nm = take (length src - 5) src
      in if endsWith src ([CHR 0x5C] @ ''.com'') \<and> nm \<noteq> [] \<and> list_all isAlnum nm
         then Some (\<lambda>url. str_includes (toLowerCase url) (toLowerCase nm @ ''.com''))
         else None)"

definition demoRuntime :: runtime where
  "demoRuntime =
     \<lparr>newURL = plainURL, JSON_parse = tableJSON, modules = fst (initialize nameRegExp plainURL)\<rparr>"

text \<open>A stage with both elements and nothing deployed, and a core with nothing selected.\<close>

definition freshDeployer :: deployer where
  "freshDeployer =
     \<lparr>videoElement = True, sourceElement = True, source_src = None, stage_calls = [],
      ended_listeners = [], embed_windows = [], onDeploy_calls = [], console = [],
      selectedFile = None, currentUrl = []\<rparr>"

text \<open>
  A registry for the examples: four platforms registered in this order, all of whose
  patterns accept the address \<open>https://video.example.com/clip\<close>; the last one is then
  disabled.
\<close>

definition andThen :: "js_error + 'a \<Rightarrow> ('a \<Rightarrow> js_error + 'b) \<Rightarrow> js_error + 'b" where
  "andThen r f = (case r of Inl err \<Rightarrow> Inl err | Inr x \<Rightarrow> f x)"

definition demoRegistration :: "js_error + unit platforms" where
  "demoRegistration =
     andThen (andThen (andThen
       (registerPlatform nameRegExp ''Example'' () None None [])
       (registerPlatform nameRegExp ''Beta'' () (Some [\<lambda>url. False, \<lambda>url. str_includes url ''video'']) (Some 50)))
       (registerPlatform nameRegExp ''Gamma'' () (Some [\<lambda>url. str_includes url ''video'']) (Some 50)))
       (registerPlatform nameRegExp ''Delta'' () (Some [\<lambda>url. str_includes url ''clip'']) (Some 1))"

definition demoPlatforms :: "unit platforms" where
  "demoPlatforms =
     (case demoRegistration of Inl err \<Rightarrow> [] | Inr ps \<Rightarrow> setPlatformEnabled ''DELTA'' False ps)"

text \<open>Two subscribers on a counter: the first throws after adding one, the second doubles.\<close>

definition failingHandler :: "(nat, nat) handler" where
  "failingHandler payload w = (w + payload, Some ''boom'')"

definition doublingHandler :: "(nat, nat) handler" where
  "doublingHandler payload w = (2 * w, None)"

definition demoListeners :: "(nat, nat) listeners" where
  "demoListeners =
     addEventListener ''video-loaded'' ''YouTube'' doublingHandler
       (addEventListener ''video-loaded'' ''YouTube'' failingHandler [])"

text \<open>
  A playlist file of three YouTube addresses, one per line; the state after it was deployed
  to the stage and its first item ended, so that the second item plays; and the state after
  a single address was then typed in and deployed to the stage.
\<close>

definition threeVideos :: File where
  "threeVideos =
     \<lparr>file_name = ''playlist.txt'',
      file_text = Some (''https://youtu.be/aaa'' @ [CHR 0x0A] @ ''https://youtu.be/bbb'' @ [CHR 0x0A] @
                        ''https://youtu.be/ccc'')\<rparr>"

definition playlistStarted :: deployer where
  "playlistStarted =
     snd (handleDeploy demoRuntime VIDEO_STAGE (setSelectedFile (Some threeVideos) freshDeployer))"

definition midSequence :: deployer where
  "midSequence = fireEnded demoRuntime playlistStarted"

definition afterNewDeploy :: deployer where
  "afterNewDeploy =
     snd (handleDeploy demoRuntime VIDEO_STAGE (setCurrentUrl ''https://youtu.be/fresh'' midSequence))"

section \<open>Properties of the registry\<close>

lemma map_get_set_same: "map_get (map_set k v m) k = Some v"
  by (induction m) auto

lemma map_get_set_other: "k' \<noteq> k \<Longrightarrow> map_get (map_set k v m) k' = map_get m k'"
  by (induction m) auto

lemma map_set_keeps_keys: "map_get m k = Some v \<Longrightarrow> map fst (map_set k v' m) = map fst m"
  by (induction m) (auto split: if_splits)

text \<open>
  The head of a stably sorted list is the first element of least key: every element before
  it in the input has a strictly greater key, every element after it a key at least as
  great.
\<close>

lemma sort_key_head_split:
  "sort_key f xs = y # ys \<Longrightarrow>
   \<exists>pre post. xs = pre @ y # post \<and> (\<forall>q\<in>set pre. f y < f q) \<and> (\<forall>q\<in>set post. f y \<le> f q)"
proof (induction xs arbitrary: y ys)
  case Nil
  then show ?case by simp
next
  case (Cons x xs)
  show ?case
  proof (cases "sort_key f xs")
    case Nil
    then have "xs = []" by (metis length_sort length_0_conv)
    with Cons.prems have "x # xs = [] @ y # []" by simp
    then show ?thesis by (metis empty_iff list.set(1))
  next
    case (Cons y' ys')
    from Cons.IH[OF Cons] obtain pre post where
      d: "xs = pre @ y' # post" "\<forall>q\<in>set pre. f y' < f q" "\<forall>q\<in>set post. f y' \<le> f q"
      by blast
    show ?thesis
    proof (cases "f x \<le> f y'")
      case True
      with Cons.prems Cons have "y = x" by simp
      moreover have "\<forall>q\<in>set xs. f x \<le> f q" using d True by auto
      ultimately show ?thesis by (intro exI[of _ "[]"] exI[of _ xs]) simp
    next
      case False
      with Cons.prems Cons have "y = y'" by simp
      then show ?thesis using d False by (intro exI[of _ "x # pre"] exI[of _ post]) auto
    qed
  qed
qed

lemma find_is_filter_head: "find P xs = (case filter P xs of [] \<Rightarrow> None | x # _ \<Rightarrow> Some x)"
  by (induction xs) auto

lemma filter_split:
  "filter P xs = pre' @ y # post' \<Longrightarrow>
   \<exists>pre post. xs = pre @ y # post \<and> filter P pre = pre' \<and> filter P post = post' \<and> P y"
proof (induction xs arbitrary: pre')
  case Nil
  then show ?case by simp
next
  case (Cons x xs)
  show ?case
  proof (cases "P x")
    case False
    with Cons.prems have "filter P xs = pre' @ y # post'" by simp
    from Cons.IH[OF this] obtain pre post where
      "xs = pre @ y # post" "filter P pre = pre'" "filter P post = post'" "P y" by blast
    with False show ?thesis by (intro exI[of _ "x # pre"] exI[of _ post]) simp
  next
    case True
    show ?thesis
    proof (cases pre')
      case Nil
      with True Cons.prems show ?thesis by (intro exI[of _ "[]"] exI[of _ xs]) simp
    next
      case (Cons a pre'')
      with True Cons.prems have "x = a" "filter P xs = pre'' @ y # post'" by simp_all
      from Cons.IH[OF this(2)] obtain pre post where
        "xs = pre @ y # post" "filter P pre = pre''" "filter P post = post'" "P y" by blast
      with True Cons \<open>x = a\<close> show ?thesis by (intro exI[of _ "x # pre"] exI[of _ post]) simp
    qed
  qed
qed

lemma detectPlatform_None:
  "(detectPlatform url ps = None) =
   (\<forall>p\<in>set (map_values ps). enabled p \<longrightarrow> \<not> matchesPatterns url (patterns p))"
  by (auto simp: detectPlatform_def find_None_iff)

lemma detectPlatform_Some:
  assumes "detectPlatform url ps = Some r"
  shows "enabled r \<and> matchesPatterns url (patterns r) \<and>
    (\<exists>earlier later. map_values ps = earlier @ r # later \<and>
      (\<forall>q\<in>set earlier. enabled q \<and> matchesPatterns url (patterns q) \<longrightarrow> priority r < priority q) \<and>
      (\<forall>q\<in>set later. enabled q \<and> matchesPatterns url (patterns q) \<longrightarrow> priority r \<le> priority q))"
proof -
  let ?M = "\<lambda>p. matchesPatterns url (patterns p)"
  let ?C = "filter (\<lambda>p. enabled p \<and> ?M p) (map_values ps)"
  have "filter ?M (sort_key priority (filter enabled (map_values ps))) = sort_key priority ?C"
    by (simp add: filter_sort conj_commute)
  with assms obtain ys where s: "sort_key priority ?C = r # ys"
    by (auto simp: detectPlatform_def find_is_filter_head split: list.splits)
  from sort_key_head_split[OF s] obtain pre' post' where
    c: "?C = pre' @ r # post'" "\<forall>q\<in>set pre'. priority r < priority q"
       "\<forall>q\<in>set post'. priority r \<le> priority q"
    by blast
  from filter_split[OF c(1)] obtain pre post where
    e: "map_values ps = pre @ r # post" "filter (\<lambda>p. enabled p \<and> ?M p) pre = pre'"
       "filter (\<lambda>p. enabled p \<and> ?M p) post = post'" "enabled r \<and> ?M r"
    by blast
  have "\<forall>q\<in>set pre. enabled q \<and> ?M q \<longrightarrow> priority r < priority q" using c(2) e(2) by auto
  moreover have "\<forall>q\<in>set post. enabled q \<and> ?M q \<longrightarrow> priority r \<le> priority q" using c(3) e(3) by auto
  ultimately show ?thesis using e(1,4) by blast
qed

text \<open>
  C2. Resolution looks at enabled entries only and returns an entry one of whose patterns
  accepts the URL. The entry returned has the least priority among the enabled entries
  that match, and among those of that priority it is the one registered first: every
  matching enabled entry registered earlier has a strictly greater priority, every one
  registered later a priority at least as great. Resolution yields nothing exactly when
  no enabled entry matches.
\<close>

theorem detectPlatform_priority_order:
  "case detectPlatform url ps of
     None \<Rightarrow> \<forall>p\<in>set (map_values ps). enabled p \<longrightarrow> \<not> matchesPatterns url (patterns p)
   | Some r \<Rightarrow>
       enabled r \<and> matchesPatterns url (patterns r) \<and>
       (\<exists>earlier later. map_values ps = earlier @ r # later \<and>
          (\<forall>q\<in>set earlier. enabled q \<and> matchesPatterns url (patterns q) \<longrightarrow> priority r < priority q) \<and>
          (\<forall>q\<in>set later. enabled q \<and> matchesPatterns url (patterns q) \<longrightarrow> priority r \<le> priority q))"
proof (cases "detectPlatform url ps")
  case None
  then show ?thesis using detectPlatform_None[of url ps] by simp
next
  case (Some r)
  then show ?thesis using detectPlatform_Some[OF Some] by simp
qed

lemma demo_names: "map name (map_values demoPlatforms) = [''Example'', ''Beta'', ''Gamma'', ''Delta'']"
  by code_simp

theorem detectPlatform_priority_order_witness:
  "\<exists>r earlier later.
     detectPlatform ''https://video.example.com/clip'' demoPlatforms = Some r \<and> name r = ''Beta'' \<and>
     map_values demoPlatforms = earlier @ r # later \<and>
     (\<forall>q\<in>set earlier. enabled q \<and> matchesPatterns ''https://video.example.com/clip'' (patterns q)
          \<longrightarrow> priority r < priority q) \<and>
     (\<forall>q\<in>set later. enabled q \<and> matchesPatterns ''https://video.example.com/clip'' (patterns q)
          \<longrightarrow> priority r \<le> priority q) \<and>
     map name earlier = [''Example''] \<and> map name later = [''Gamma'', ''Delta'']"
proof -
  have "map_option name (detectPlatform ''https://video.example.com/clip'' demoPlatforms) = Some ''Beta''"
    by code_simp
  then obtain r where r: "detectPlatform ''https://video.example.com/clip'' demoPlatforms = Some r"
    "name r = ''Beta''" by auto
  from detectPlatform_priority_order[where url = "''https://video.example.com/clip''" and ps = demoPlatforms] r
  obtain earlier later where d: "map_values demoPlatforms = earlier @ r # later"
     "(\<forall>q\<in>set earlier. enabled q \<and> matchesPatterns ''https://video.example.com/clip'' (patterns q)
          \<longrightarrow> priority r < priority q)"
     "(\<forall>q\<in>set later. enabled q \<and> matchesPatterns ''https://video.example.com/clip'' (patterns q)
          \<longrightarrow> priority r \<le> priority q)" by auto
  from d(1) have "map name earlier @ ''Beta'' # map name later = [''Example'', ''Beta'', ''Gamma'', ''Delta'']"
    using demo_names r(2) by (metis list.simps(9) map_append)
  then have "map name earlier = [''Example''] \<and> map name later = [''Gamma'', ''Delta'']"
    by (auto simp: append_eq_Cons_conv Cons_eq_append_conv)
  with r d show ?thesis by (intro exI[of _ r] exI[of _ earlier] exI[of _ later]) simp
qed

lemma disabled_entry_filtered:
  "map_get ps k = Some p \<Longrightarrow>
   filter enabled (map_values (map_set k (p\<lparr>enabled := False\<rparr>) ps)) =
   filter enabled (map_values (map_delete k ps))"
  by (induction ps) (auto simp: map_values_def)

lemma map_set_back: "map_get ps k = Some p \<Longrightarrow> map_set k p (map_set k v ps) = ps"
  by (induction ps) auto

text \<open>
  C9. Disabling a registered, enabled entry changes nothing but its flag: the entry keeps
  its slot and its other fields, every other entry is untouched, and resolution behaves
  as if the entry had been deleted. Enabling it again gives back the very registry there
  was before, hence the same resolution for every URL.
\<close>

theorem disable_then_enable_restores:
  assumes "getPlatform nm ps = Some p" and "enabled p"
  shows "getPlatform nm (setPlatformEnabled nm False ps) = Some (p\<lparr>enabled := False\<rparr>) \<and>
         (\<forall>k. k \<noteq> toLowerCase nm \<longrightarrow> map_get (setPlatformEnabled nm False ps) k = map_get ps k) \<and>
         map fst (setPlatformEnabled nm False ps) = map fst ps \<and>
         (\<forall>url. detectPlatform url (setPlatformEnabled nm False ps) =
                detectPlatform url (map_delete (toLowerCase nm) ps)) \<and>
         setPlatformEnabled nm True (setPlatformEnabled nm False ps) = ps \<and>
         (\<forall>url. detectPlatform url (setPlatformEnabled nm True (setPlatformEnabled nm False ps)) =
                detectPlatform url ps)"
proof -
  let ?k = "toLowerCase nm"
  from assms(1) have g: "map_get ps ?k = Some p" by (simp add: getPlatform_def)
  then have off: "setPlatformEnabled nm False ps = map_set ?k (p\<lparr>enabled := False\<rparr>) ps"
    by (simp add: setPlatformEnabled_def)
  have a: "getPlatform nm (setPlatformEnabled nm False ps) = Some (p\<lparr>enabled := False\<rparr>)"
    by (simp add: off getPlatform_def map_get_set_same)
  have b: "\<forall>k. k \<noteq> ?k \<longrightarrow> map_get (setPlatformEnabled nm False ps) k = map_get ps k"
    by (simp add: off map_get_set_other)
  have c: "map fst (setPlatformEnabled nm False ps) = map fst ps"
    using g by (simp add: off map_set_keeps_keys)
  have d: "\<forall>url. detectPlatform url (setPlatformEnabled nm False ps) = detectPlatform url (map_delete ?k ps)"
    using disabled_entry_filtered[OF g] by (simp add: off detectPlatform_def)
  have "p\<lparr>enabled := True\<rparr> = p" using assms(2) by simp
  then have e: "setPlatformEnabled nm True (setPlatformEnabled nm False ps) = ps"
    using g by (simp add: off setPlatformEnabled_def map_get_set_same map_set_back)
  from a b c d e show ?thesis by simp
qed

theorem disable_then_enable_restores_witness:
  "map_option enabled (getPlatform ''BETA'' demoPlatforms) = Some True \<and>
   setPlatformEnabled ''BETA'' True (setPlatformEnabled ''BETA'' False demoPlatforms) = demoPlatforms \<and>
   map_option name (detectPlatform ''https://video.example.com/clip'' demoPlatforms) = Some ''Beta'' \<and>
   map_option name (detectPlatform ''https://video.example.com/clip''
      (setPlatformEnabled ''BETA'' False demoPlatforms)) = Some ''Gamma''"
proof -
  have h: "map_option enabled (getPlatform ''BETA'' demoPlatforms) = Some True" by code_simp
  then obtain p where p: "getPlatform ''BETA'' demoPlatforms = Some p" "enabled p" by auto
  have "map_option name (detectPlatform ''https://video.example.com/clip'' demoPlatforms) = Some ''Beta''"
    by code_simp
  moreover have "map_option name (detectPlatform ''https://video.example.com/clip''
      (setPlatformEnabled ''BETA'' False demoPlatforms)) = Some ''Gamma''"
    by code_simp
  ultimately show ?thesis using h disable_then_enable_restores[OF p] by simp
qed

lemma forEach_world:
  "world (forEach_listener ls d r) = foldl (\<lambda>w l. fst (handler l d w)) (world r) ls"
  by (induction ls arbitrary: r) (auto split: prod.splits option.splits)

lemma forEach_thrown: "thrown (forEach_listener ls d r) = thrown r"
  by (induction ls arbitrary: r) (auto split: prod.splits option.splits)

text \<open>
  C8. Publishing runs every subscriber of the key once, in subscription order, each on the
  state its predecessor left, whether or not a subscriber throws; no error reaches the
  publisher. A new subscriber goes to the end of its key's list.
\<close>

theorem emitEvent_isolates_failures:
  "thrown (emitEvent ev pl d ls w) = None \<and>
   world (emitEvent ev pl d ls w) = foldl (\<lambda>w' l. fst (handler l d w')) w (subscribed ls ev pl) \<and>
   subscribed (addEventListener ev pl h ls) ev pl =
     subscribed ls ev pl @ [\<lparr>event = ev, platform = pl, handler = h\<rparr>]"
  by (simp add: emitEvent_def subscribed_def addEventListener_def Let_def forEach_world forEach_thrown
        map_get_set_same split: option.splits)

theorem emitEvent_isolates_failures_witness:
  "map handler (subscribed demoListeners ''video-loaded'' ''YouTube'') = [failingHandler, doublingHandler] \<and>
   emitEvent ''video-loaded'' ''YouTube'' 3 demoListeners 5 =
     \<lparr>thrown = None, world = 16, console_errors = [''boom'']\<rparr>"
proof -
  have "world (emitEvent ''video-loaded'' ''YouTube'' 3 demoListeners 5) = 
        foldl (\<lambda>w' l. fst (handler l 3 w')) 5 (subscribed demoListeners ''video-loaded'' ''YouTube'')"
    using emitEvent_isolates_failures[of "''video-loaded''" "''YouTube''" 3 demoListeners 5] by simp
  moreover have "subscribed demoListeners ''video-loaded'' ''YouTube'' =
     [\<lparr>event = ''video-loaded'', platform = ''YouTube'', handler = failingHandler\<rparr>,
      \<lparr>event = ''video-loaded'', platform = ''YouTube'', handler = doublingHandler\<rparr>]"
    by (simp add: demoListeners_def subscribed_def addEventListener_def listenerKey_def)
  moreover have "emitEvent ''video-loaded'' ''YouTube'' 3 demoListeners 5 =
     \<lparr>thrown = None, world = 16, console_errors = [''boom'']\<rparr>"
    by (simp add: emitEvent_def demoListeners_def addEventListener_def listenerKey_def
          failingHandler_def doublingHandler_def)
  ultimately show ?thesis by simp
qed

section \<open>Properties of the YouTube module and of the JSON reader\<close>

lemma match_group_after_nonempty: "match_group_after lit ok s = Some g \<Longrightarrow> g \<noteq> []"
  by (induction s) (auto simp: Let_def split: if_splits)

lemma extractVideoId_try_nonempty: "extractVideoId_try ctor url \<noteq> Inr (Some [])"
  by (auto simp: extractVideoId_try_def Let_def dest: match_group_after_nonempty
      split: option.splits if_splits)

lemma extractVideoId_total: "\<exists>r. extractVideoId ctor url = Inr r"
  by (simp add: extractVideoId_def split: sum.splits)

lemma extractVideoId_nonempty: "extractVideoId ctor url \<noteq> Inr (Some [])"
  using extractVideoId_try_nonempty[of ctor url]
  by (auto simp: extractVideoId_def split: sum.splits)

text \<open>
  C7. \<open>extractVideoId\<close> returns for every input and never hands an error to its caller.
  Where the URL constructor refuses the input the result is \<open>null\<close>, and so it is where the
  host is neither of YouTube's.
\<close>

theorem extractVideoId_never_raises:
  "(\<exists>r. extractVideoId ctor url = Inr r) \<and>
   (ctor url = None \<longrightarrow> extractVideoId ctor url = Inr None) \<and>
   (\<forall>u. ctor url = Some u \<and> \<not> str_includes (toLowerCase (hostname u)) ''youtu.be'' \<and>
        \<not> str_includes (toLowerCase (hostname u)) ''youtube.com'' \<longrightarrow>
        extractVideoId ctor url = Inr None)"
  by (auto simp: extractVideoId_def extractVideoId_try_def Let_def split: sum.splits option.splits)

theorem extractVideoId_never_raises_witness:
  "plainURL ''not a url'' = None \<and> extractVideoId plainURL ''not a url'' = Inr None \<and>
   map_option hostname (plainURL ''https://vimeo.com/123'') = Some ''vimeo.com'' \<and>
   extractVideoId plainURL ''https://vimeo.com/123'' = Inr None"
proof -
  have a: "plainURL ''not a url'' = None" by code_simp
  have b: "map_option hostname (plainURL ''https://vimeo.com/123'') = Some ''vimeo.com''" by code_simp
  then obtain u where u: "plainURL ''https://vimeo.com/123'' = Some u" "hostname u = ''vimeo.com''" by auto
  have c: "\<not> str_includes (toLowerCase ''vimeo.com'') ''youtu.be'' \<and>
           \<not> str_includes (toLowerCase ''vimeo.com'') ''youtube.com''" by code_simp
  from extractVideoId_never_raises[of plainURL "''not a url''"] a
  have "extractVideoId plainURL ''not a url'' = Inr None" by simp
  moreover from extractVideoId_never_raises[of plainURL "''https://vimeo.com/123''"] u c
  have "extractVideoId plainURL ''https://vimeo.com/123'' = Inr None" by simp
  ultimately show ?thesis using a b by simp
qed

text \<open>
  C6. \<open>process\<close> fails exactly when \<open>extractVideoId\<close> finds no video id, and the failure is then
  the invalid-reference error. When an id is found, \<open>process\<close> succeeds with the embed
  address built from that id.
\<close>

theorem process_fails_iff_no_reference:
  "((\<exists>err. process ctor url = Inl err) \<longleftrightarrow> extractVideoId ctor url = Inr None) \<and>
   (extractVideoId ctor url = Inr None \<longrightarrow> process ctor url = Inl InvalidReference) \<and>
   (\<forall>v. extractVideoId ctor url = Inr (Some v) \<longrightarrow>
        process ctor url = Inr (''https://www.youtube.com/embed/'' @ v @ ''?autoplay=1&enablejsapi=1''))"
proof -
  obtain r where r: "extractVideoId ctor url = Inr r" using extractVideoId_total by blast
  show ?thesis
  proof (cases r)
    case None
    with r show ?thesis by (simp add: process_def falsy_str_def)
  next
    case (Some v)
    with r extractVideoId_nonempty[of ctor url] have "v \<noteq> []" by auto
    with r Some show ?thesis by (simp add: process_def falsy_str_def)
  qed
qed

theorem process_fails_iff_no_reference_witness:
  "extractVideoId plainURL ''https://www.youtube.com/playlist'' = Inr None \<and>
   process plainURL ''https://www.youtube.com/playlist'' = Inl InvalidReference \<and>
   extractVideoId plainURL ''https://www.youtube.com/watch?v=abc123'' = Inr (Some ''abc123'') \<and>
   process plainURL ''https://www.youtube.com/watch?v=abc123'' =
     Inr ''https://www.youtube.com/embed/abc123?autoplay=1&enablejsapi=1''"
proof -
  have a: "extractVideoId plainURL ''https://www.youtube.com/playlist'' = Inr None" by code_simp
  have b: "extractVideoId plainURL ''https://www.youtube.com/watch?v=abc123'' = Inr (Some ''abc123'')"
    by code_simp
  from process_fails_iff_no_reference[of plainURL "''https://www.youtube.com/playlist''"] a
  have "process plainURL ''https://www.youtube.com/playlist'' = Inl InvalidReference" by simp
  moreover from process_fails_iff_no_reference[of plainURL "''https://www.youtube.com/watch?v=abc123''"] b
  have "process plainURL ''https://www.youtube.com/watch?v=abc123'' =
     Inr ''https://www.youtube.com/embed/abc123?autoplay=1&enablejsapi=1''" by simp
  ultimately show ?thesis using a b by simp
qed

lemma readJsonUrls_total: "\<exists>urls. readJsonUrls ctor parse content = Inr urls"
  by (simp add: readJsonUrls_def split: sum.splits)

text \<open>
  C10. On a text that \<open>JSON.parse\<close> refuses, \<open>readJsonUrls\<close> returns the empty list; and on
  every text it returns a list and hands no error to its caller.
\<close>

theorem readJsonUrls_unparseable:
  "(parse content = None \<longrightarrow> readJsonUrls ctor parse content = Inr []) \<and>
   (\<exists>urls. readJsonUrls ctor parse content = Inr urls)"
  by (simp add: readJsonUrls_def readJsonUrls_try_def split: sum.splits)

theorem readJsonUrls_unparseable_witness:
  "tableJSON ''{not json'' = None \<and> readJsonUrls plainURL tableJSON ''{not json'' = Inr [] \<and>
   readJsonUrls plainURL tableJSON
     ''{\"urls\": [\"https://a.com/x\", \"not a url\", \"https://b.com/y\"]}'' =
     Inr [''https://a.com/x'', ''https://b.com/y'']"
proof -
  have a: "tableJSON ''{not json'' = None" by code_simp
  have b: "readJsonUrls plainURL tableJSON
     ''{\"urls\": [\"https://a.com/x\", \"not a url\", \"https://b.com/y\"]}'' =
     Inr [''https://a.com/x'', ''https://b.com/y'']" by code_simp
  from readJsonUrls_unparseable[of tableJSON "''{not json''" plainURL] a
  have "readJsonUrls plainURL tableJSON ''{not json'' = Inr []" by blast
  with a b show ?thesis by blast
qed

section \<open>Properties of link extraction\<close>

text \<open>
  C3 does not hold as stated: a URL that stands on two lines of a text file, twice in a
  JSON array, or twice in a file of unknown kind, is returned twice.
\<close>

theorem extract_keeps_duplicates_counterexample:
  "extractUrls plainURL tableJSON (''https://a.com/x'' @ [CHR 0x0A] @ ''https://a.com/x'') ''list.txt'' =
     Inr [''https://a.com/x'', ''https://a.com/x''] \<and>
   extractUrls plainURL tableJSON ''[\"https://a.com/x\", \"https://a.com/x\"]'' ''list.json'' =
     Inr [''https://a.com/x'', ''https://a.com/x''] \<and>
   extractUrls plainURL tableJSON ''https://youtu.be/x https://youtu.be/x'' ''links'' =
     Inr [''https://youtu.be/x'', ''https://youtu.be/x''] \<and>
   \<not> distinct [''https://a.com/x'', ''https://a.com/x''] \<and>
   \<not> distinct [''https://youtu.be/x'', ''https://youtu.be/x'']"
proof -
  have "extractUrls plainURL tableJSON (''https://a.com/x'' @ [CHR 0x0A] @ ''https://a.com/x'') ''list.txt'' =
     Inr [''https://a.com/x'', ''https://a.com/x'']"
    by code_simp
  moreover have "extractUrls plainURL tableJSON ''[\"https://a.com/x\", \"https://a.com/x\"]'' ''list.json'' =
     Inr [''https://a.com/x'', ''https://a.com/x'']"
    by code_simp
  moreover have "extractUrls plainURL tableJSON ''https://youtu.be/x https://youtu.be/x'' ''links'' =
     Inr [''https://youtu.be/x'', ''https://youtu.be/x'']"
    by code_simp
  moreover have "\<not> distinct [''https://a.com/x'', ''https://a.com/x'']" by simp
  moreover have "\<not> distinct [''https://youtu.be/x'', ''https://youtu.be/x'']" by simp
  ultimately show ?thesis by blast
qed

lemma split_on_nonempty: "split_on c s \<noteq> []"
  by (induction s) (auto simp: Let_def)

lemma split_on_append: "split_on c (a @ c # b) = split_on c a @ split_on c b"
  by (induction a) (auto simp: Let_def split_on_nonempty)

lemma readTextUrls_lines:
  "readTextUrls ctor (a @ CHR 0x0A # b) = readTextUrls ctor a @ readTextUrls ctor b"
  by (simp add: readTextUrls_def split_on_append)

lemma remdups_snoc: "remdups (xs @ [u]) = filter (\<lambda>x. x \<noteq> u) (remdups xs) @ [u]"
  by (induction xs) auto

lemma first_occurrences_Cons:
  "rev (remdups (rev (u # xs))) = u # rev (remdups (rev (filter (\<lambda>x. x \<noteq> u) xs)))"
  by (simp add: remdups_snoc rev_filter remdups_filter)

lemma plainUrlPass_first_occurrences:
  "plainUrlPass ctor ms urls =
   urls @ rev (remdups (rev (filter (\<lambda>u. isValidUrl ctor u \<and> u \<notin> set urls)
                               (map stripTrailingPunctuation ms))))"
proof (induction ms arbitrary: urls)
  case Nil
  then show ?case by simp
next
  case (Cons m ms)
  let ?u = "stripTrailingPunctuation m"
  let ?C = "map stripTrailingPunctuation ms"
  show ?case
  proof (cases "isValidUrl ctor ?u \<and> ?u \<notin> set urls")
    case True
    have f: "filter (\<lambda>x. x \<noteq> ?u) (filter (\<lambda>u. isValidUrl ctor u \<and> u \<notin> set urls) ?C) =
             filter (\<lambda>u. isValidUrl ctor u \<and> u \<notin> set (urls @ [?u])) ?C"
      by (auto intro: filter_cong)
    have "plainUrlPass ctor (m # ms) urls = plainUrlPass ctor ms (urls @ [?u])"
      using True by simp
    also have "\<dots> = urls @ ?u # rev (remdups (rev (filter (\<lambda>u. isValidUrl ctor u \<and> u \<notin> set (urls @ [?u])) ?C)))"
      by (simp add: Cons.IH)
    also have "\<dots> = urls @ rev (remdups (rev (?u # filter (\<lambda>u. isValidUrl ctor u \<and> u \<notin> set urls) ?C)))"
      by (simp only: first_occurrences_Cons f)
    finally show ?thesis using True by simp
  next
    case False
    then have "plainUrlPass ctor (m # ms) urls = plainUrlPass ctor ms urls"
      by (auto simp: Let_def)
    then show ?thesis using False by (auto simp: Cons.IH)
  qed
qed

text \<open>
  C3, as the code has it. The Markdown reader appends a bare URL only if that very string
  is not yet in its result: what it returns is the inline links followed by the first
  occurrences, in order, of the valid bare URLs that are not among the inline links, and
  it has no duplicates when the inline links have none. The plain-text reader returns,
  for a text of several lines, what it returns for each line, one after the other.
\<close>

theorem markdown_bare_pass_deduplicates:
  "readMarkdownUrls ctor content =
     markdownLinkPass ctor content @
     rev (remdups (rev (filter (\<lambda>u. isValidUrl ctor u \<and> u \<notin> set (markdownLinkPass ctor content))
        (map stripTrailingPunctuation (matchAllUrls (\<lambda>c. isSpace c \<or> c = CHR '')'') content))))) \<and>
   (distinct (markdownLinkPass ctor content) \<longrightarrow> distinct (readMarkdownUrls ctor content)) \<and>
   readTextUrls ctor (a @ CHR 0x0A # b) = readTextUrls ctor a @ readTextUrls ctor b"
proof -
  let ?links = "markdownLinkPass ctor content"
  let ?bare = "rev (remdups (rev (filter (\<lambda>u. isValidUrl ctor u \<and> u \<notin> set ?links)
        (map stripTrailingPunctuation (matchAllUrls (\<lambda>c. isSpace c \<or> c = CHR '')'') content)))))"
  have s: "readMarkdownUrls ctor content = ?links @ ?bare"
    by (simp add: readMarkdownUrls_def plainUrlPass_first_occurrences)
  have "distinct ?bare" by simp
  moreover have "set ?links \<inter> set ?bare = {}" by auto
  ultimately have "distinct ?links \<longrightarrow> distinct (?links @ ?bare)" by simp
  with s readTextUrls_lines[of ctor a b] show ?thesis by simp
qed

theorem markdown_bare_pass_deduplicates_witness:
  "distinct (markdownLinkPass plainURL ''[A](https://a.com/1) then https://a.com/1 again and https://b.com/2'') \<and>
   readMarkdownUrls plainURL ''[A](https://a.com/1) then https://a.com/1 again and https://b.com/2'' =
     [''https://a.com/1'', ''https://b.com/2''] \<and>
   distinct (readMarkdownUrls plainURL ''[A](https://a.com/1) then https://a.com/1 again and https://b.com/2'') \<and>
   readTextUrls plainURL (''https://a.com/x'' @ CHR 0x0A # ''https://a.com/x'') =
     readTextUrls plainURL ''https://a.com/x'' @ readTextUrls plainURL ''https://a.com/x''"
proof -
  let ?md = "''[A](https://a.com/1) then https://a.com/1 again and https://b.com/2''"
  have a: "distinct (markdownLinkPass plainURL ?md)" by code_simp
  have b: "readMarkdownUrls plainURL ?md = [''https://a.com/1'', ''https://b.com/2'']" by code_simp
  have c: "distinct (markdownLinkPass plainURL ?md) \<longrightarrow> distinct (readMarkdownUrls plainURL ?md)"
    using markdown_bare_pass_deduplicates[of plainURL ?md "''https://a.com/x''" "''https://a.com/x''"]
    by (rule conjunct1[OF conjunct2])
  have d: "readTextUrls plainURL (''https://a.com/x'' @ CHR 0x0A # ''https://a.com/x'') =
     readTextUrls plainURL ''https://a.com/x'' @ readTextUrls plainURL ''https://a.com/x''"
    using markdown_bare_pass_deduplicates[of plainURL ?md "''https://a.com/x''" "''https://a.com/x''"]
    by (rule conjunct2[OF conjunct2])
  from a b c d show ?thesis by blast
qed

section \<open>Properties of the deployment core\<close>

lemma deployToVideoStage_frame:
  "videoElement (deployToVideoStage rt url plat d) = videoElement d"
  "sourceElement (deployToVideoStage rt url plat d) = sourceElement d"
  "ended_listeners (deployToVideoStage rt url plat d) = ended_listeners d"
  "embed_windows (deployToVideoStage rt url plat d) = embed_windows d"
  "onDeploy_calls (deployToVideoStage rt url plat d) = onDeploy_calls d"
  "currentUrl (deployToVideoStage rt url plat d) = currentUrl d"
  "selectedFile (deployToVideoStage rt url plat d) = selectedFile d"
  by (simp_all add: deployToVideoStage_def split: option.splits sum.splits)

lemma deployToEmbed_frame:
  "videoElement (deployToEmbed rt url plat d) = videoElement d"
  "sourceElement (deployToEmbed rt url plat d) = sourceElement d"
  "ended_listeners (deployToEmbed rt url plat d) = ended_listeners d"
  "stage_calls (deployToEmbed rt url plat d) = stage_calls d"
  "source_src (deployToEmbed rt url plat d) = source_src d"
  "onDeploy_calls (deployToEmbed rt url plat d) = onDeploy_calls d"
  "currentUrl (deployToEmbed rt url plat d) = currentUrl d"
  "selectedFile (deployToEmbed rt url plat d) = selectedFile d"
  by (simp_all add: deployToEmbed_def split: option.splits sum.splits)

lemma deploySingleUrl_listeners:
  "ended_listeners (deploySingleUrl rt url mode plat d) = ended_listeners d"
  by (simp add: deploySingleUrl_def Let_def deployToVideoStage_frame deployToEmbed_frame)

lemma fireEnded_single:
  "ended_listeners d = [cl] \<Longrightarrow>
   fireEnded rt d = (snd (playNext rt cl d))\<lparr>ended_listeners := [fst (playNext rt cl d)]\<rparr>"
  by (simp add: fireEnded_def split: prod.splits)

lemma fireEnded_single_next:
  assumes "ended_listeners d = [cl]" and "currentIndex cl + 1 < length (playlist_urls cl)"
  shows "fireEnded rt d =
     (deployToVideoStage rt (playlist_urls cl ! (currentIndex cl + 1))
        (coreDetectPlatform (newURL rt) (playlist_urls cl ! (currentIndex cl + 1))) d)
     \<lparr>ended_listeners := [cl\<lparr>currentIndex := currentIndex cl + 1\<rparr>]\<rparr>"
  using assms by (simp add: fireEnded_single playNext_def Let_def)

lemma fireEnded_single_exhausted:
  assumes "ended_listeners d = [cl]" and "\<not> currentIndex cl + 1 < length (playlist_urls cl)"
  shows "fireEnded rt d = d\<lparr>ended_listeners := [cl\<lparr>currentIndex := currentIndex cl + 1\<rparr>]\<rparr>"
  using assms by (simp add: fireEnded_def playNext_def Let_def split: prod.splits)

lemma exhausted_playlist_stays:
  assumes "ended_listeners d = [cl]" and "length (playlist_urls cl) \<le> currentIndex cl + 1"
  shows "(fireEnded rt ^^ n) d = d\<lparr>ended_listeners := [cl\<lparr>currentIndex := currentIndex cl + n\<rparr>]\<rparr>"
proof (induction n)
  case 0
  show ?case using assms(1) by simp
next
  case (Suc n)
  let ?dn = "d\<lparr>ended_listeners := [cl\<lparr>currentIndex := currentIndex cl + n\<rparr>]\<rparr>"
  let ?cl = "cl\<lparr>currentIndex := currentIndex cl + n\<rparr>"
  have l: "ended_listeners ?dn = [?cl]" by simp
  have e: "\<not> currentIndex ?cl + 1 < length (playlist_urls ?cl)" using assms(2) by simp
  have "(fireEnded rt ^^ Suc n) d = fireEnded rt ?dn" using Suc.IH by simp
  also have "\<dots> = ?dn\<lparr>ended_listeners := [?cl\<lparr>currentIndex := currentIndex ?cl + 1\<rparr>]\<rparr>"
    by (rule fireEnded_single_exhausted[OF l e])
  finally show ?case by simp
qed

text \<open>
  C5. On a stage that has its elements and no playlist yet, a batch of three addresses is
  deployed thus: the first item at once; the second at the first \<open>ended\<close>, the third at the
  second, each by one call of \<open>deployToVideoStage\<close>; the third \<open>ended\<close> only advances the
  counter past the end and deploys nothing, and so does every \<open>ended\<close> after it.
\<close>

theorem playlist_of_three_advances:
  assumes "videoElement d" and "sourceElement d" and "ended_listeners d = []"
  shows "let urls = [u0, u1, u2];
             d0 = deployMultipleToVideoStage rt urls d;
             d1 = fireEnded rt d0;
             d2 = fireEnded rt d1;
             d3 = fireEnded rt d2
         in d0 = (deployToVideoStage rt u0 (coreDetectPlatform (newURL rt) u0)
                    (d\<lparr>console := console d @
                        [ConsoleLog ''Deploying 3 videos to video stage with playlist'']\<rparr>))
                 \<lparr>ended_listeners := [\<lparr>playlist_urls = urls, currentIndex = 0\<rparr>]\<rparr> \<and>
            d1 = (deployToVideoStage rt u1 (coreDetectPlatform (newURL rt) u1) d0)
                 \<lparr>ended_listeners := [\<lparr>playlist_urls = urls, currentIndex = 1\<rparr>]\<rparr> \<and>
            d2 = (deployToVideoStage rt u2 (coreDetectPlatform (newURL rt) u2) d1)
                 \<lparr>ended_listeners := [\<lparr>playlist_urls = urls, currentIndex = 2\<rparr>]\<rparr> \<and>
            d3 = d2\<lparr>ended_listeners := [\<lparr>playlist_urls = urls, currentIndex = 3\<rparr>]\<rparr> \<and>
            (\<forall>n. (fireEnded rt ^^ n) d2 =
                  d2\<lparr>ended_listeners := [\<lparr>playlist_urls = urls, currentIndex = 2 + n\<rparr>]\<rparr>)"
proof -
  let ?urls = "[u0, u1, u2]"
  let ?d0 = "deployMultipleToVideoStage rt ?urls d"
  let ?d1 = "fireEnded rt ?d0"
  let ?d2 = "fireEnded rt ?d1"
  let ?d3 = "fireEnded rt ?d2"
  have s: "showNat (Suc (Suc (Suc 0))) = ''3''" by code_simp
  have e0: "?d0 = (deployToVideoStage rt u0 (coreDetectPlatform (newURL rt) u0)
                    (d\<lparr>console := console d @
                        [ConsoleLog ''Deploying 3 videos to video stage with playlist'']\<rparr>))
                 \<lparr>ended_listeners := [\<lparr>playlist_urls = ?urls, currentIndex = 0\<rparr>]\<rparr>"
    using assms
    by (simp add: deployMultipleToVideoStage_def setupVideoPlaylist_def Let_def deployToVideoStage_frame s)
  then have l0: "ended_listeners ?d0 = [\<lparr>playlist_urls = ?urls, currentIndex = 0\<rparr>]" by simp
  have e1: "?d1 = (deployToVideoStage rt u1 (coreDetectPlatform (newURL rt) u1) ?d0)
                 \<lparr>ended_listeners := [\<lparr>playlist_urls = ?urls, currentIndex = 1\<rparr>]\<rparr>"
    using fireEnded_single_next[OF l0, of rt] by simp
  then have l1: "ended_listeners ?d1 = [\<lparr>playlist_urls = ?urls, currentIndex = 1\<rparr>]" by simp
  have e2: "?d2 = (deployToVideoStage rt u2 (coreDetectPlatform (newURL rt) u2) ?d1)
                 \<lparr>ended_listeners := [\<lparr>playlist_urls = ?urls, currentIndex = 2\<rparr>]\<rparr>"
    using fireEnded_single_next[OF l1, of rt] by (simp add: numeral_2_eq_2)
  then have l2: "ended_listeners ?d2 = [\<lparr>playlist_urls = ?urls, currentIndex = 2\<rparr>]" by simp
  have e3: "?d3 = ?d2\<lparr>ended_listeners := [\<lparr>playlist_urls = ?urls, currentIndex = 3\<rparr>]\<rparr>"
    using fireEnded_single_exhausted[OF l2, of rt] by simp
  have e4: "\<forall>n. (fireEnded rt ^^ n) ?d2 =
                  ?d2\<lparr>ended_listeners := [\<lparr>playlist_urls = ?urls, currentIndex = 2 + n\<rparr>]\<rparr>"
    using exhausted_playlist_stays[OF l2, where rt = rt] by simp
  from e0 e1 e2 e3 e4 show ?thesis unfolding Let_def by blast
qed

theorem playlist_of_three_advances_witness:
  "videoElement freshDeployer \<and> sourceElement freshDeployer \<and> ended_listeners freshDeployer = [] \<and>
   (let urls = [''https://youtu.be/aaa'', ''https://youtu.be/bbb'', ''https://youtu.be/ccc''];
        d0 = deployMultipleToVideoStage demoRuntime urls freshDeployer;
        d1 = fireEnded demoRuntime d0;
        d2 = fireEnded demoRuntime d1;
        d3 = fireEnded demoRuntime d2
    in stage_calls d0 =
         [SetSource ''https://www.youtube.com/embed/aaa?autoplay=1&enablejsapi=1'', Load, PlayOnCanplay] \<and>
       stage_calls d1 = stage_calls d0 @
         [SetSource ''https://www.youtube.com/embed/bbb?autoplay=1&enablejsapi=1'', Load, PlayOnCanplay] \<and>
       stage_calls d2 = stage_calls d1 @
         [SetSource ''https://www.youtube.com/embed/ccc?autoplay=1&enablejsapi=1'', Load, PlayOnCanplay] \<and>
       d3 = d2\<lparr>ended_listeners := [\<lparr>playlist_urls = urls, currentIndex = 3\<rparr>]\<rparr>)"
proof -
  have h: "videoElement freshDeployer" "sourceElement freshDeployer" "ended_listeners freshDeployer = []"
    by (simp_all add: freshDeployer_def)
  have e: "let urls = [''https://youtu.be/aaa'', ''https://youtu.be/bbb'', ''https://youtu.be/ccc''];
        d0 = deployMultipleToVideoStage demoRuntime urls freshDeployer;
        d1 = fireEnded demoRuntime d0;
        d2 = fireEnded demoRuntime d1
    in stage_calls d0 =
         [SetSource ''https://www.youtube.com/embed/aaa?autoplay=1&enablejsapi=1'', Load, PlayOnCanplay] \<and>
       stage_calls d1 = stage_calls d0 @
         [SetSource ''https://www.youtube.com/embed/bbb?autoplay=1&enablejsapi=1'', Load, PlayOnCanplay] \<and>
       stage_calls d2 = stage_calls d1 @
         [SetSource ''https://www.youtube.com/embed/ccc?autoplay=1&enablejsapi=1'', Load, PlayOnCanplay]"
    by code_simp
  from playlist_of_three_advances[OF h, of "''https://youtu.be/aaa''" "''https://youtu.be/bbb''"
      "''https://youtu.be/ccc''" demoRuntime] e h
  show ?thesis unfolding Let_def by blast
qed

text \<open>
  C1 does not hold as stated: after a single address is deployed in the middle of a
  playlist, the next \<open>ended\<close> puts the third item of the old batch on the stage.
\<close>

theorem new_deploy_does_not_cancel_counterexample:
  "ended_listeners midSequence =
     [\<lparr>playlist_urls = [''https://youtu.be/aaa'', ''https://youtu.be/bbb'', ''https://youtu.be/ccc''],
       currentIndex = 1\<rparr>] \<and>
   afterNewDeploy =
     snd (handleDeploy demoRuntime VIDEO_STAGE (setCurrentUrl ''https://youtu.be/fresh'' midSequence)) \<and>
   source_src afterNewDeploy = Some ''https://www.youtube.com/embed/fresh?autoplay=1&enablejsapi=1'' \<and>
   stage_calls (fireEnded demoRuntime afterNewDeploy) = stage_calls afterNewDeploy @
     [SetSource ''https://www.youtube.com/embed/ccc?autoplay=1&enablejsapi=1'', Load, PlayOnCanplay]"
  by code_simp

text \<open>
  C1, as the code has it. Deploying a single address leaves the listeners of \<open>ended\<close> as
  they are; if a playlist with a further item is registered, the next \<open>ended\<close> after the
  new deployment advances its counter and deploys that item.
\<close>

theorem single_deploy_keeps_playlist:
  assumes "currentUrl d \<noteq> []"
  shows "ended_listeners (snd (handleDeploy rt mode d)) = ended_listeners d \<and>
         (\<forall>cl. ended_listeners d = [cl] \<and> currentIndex cl + 1 < length (playlist_urls cl) \<longrightarrow>
            fireEnded rt (snd (handleDeploy rt mode d)) =
              (deployToVideoStage rt (playlist_urls cl ! (currentIndex cl + 1))
                 (coreDetectPlatform (newURL rt) (playlist_urls cl ! (currentIndex cl + 1)))
                 (snd (handleDeploy rt mode d)))
              \<lparr>ended_listeners := [cl\<lparr>currentIndex := currentIndex cl + 1\<rparr>]\<rparr>)"
proof -
  have l: "ended_listeners (snd (handleDeploy rt mode d)) = ended_listeners d"
    using assms by (simp add: handleDeploy_def Let_def deploySingleUrl_listeners)
  show ?thesis
  proof (intro conjI allI impI)
    show "ended_listeners (snd (handleDeploy rt mode d)) = ended_listeners d" by (rule l)
  next
    fix cl
    assume a: "ended_listeners d = [cl] \<and> currentIndex cl + 1 < length (playlist_urls cl)"
    then have "ended_listeners (snd (handleDeploy rt mode d)) = [cl]" using l by simp
    from fireEnded_single_next[OF this, of rt] a
    show "fireEnded rt (snd (handleDeploy rt mode d)) =
              (deployToVideoStage rt (playlist_urls cl ! (currentIndex cl + 1))
                 (coreDetectPlatform (newURL rt) (playlist_urls cl ! (currentIndex cl + 1)))
                 (snd (handleDeploy rt mode d)))
              \<lparr>ended_listeners := [cl\<lparr>currentIndex := currentIndex cl + 1\<rparr>]\<rparr>" by simp
  qed
qed

theorem single_deploy_keeps_playlist_witness:
  "currentUrl (setCurrentUrl ''https://youtu.be/fresh'' midSequence) \<noteq> [] \<and>
   ended_listeners (setCurrentUrl ''https://youtu.be/fresh'' midSequence) =
     [\<lparr>playlist_urls = [''https://youtu.be/aaa'', ''https://youtu.be/bbb'', ''https://youtu.be/ccc''],
       currentIndex = 1\<rparr>] \<and>
   fireEnded demoRuntime afterNewDeploy =
     (deployToVideoStage demoRuntime ''https://youtu.be/ccc'' (Some ''YouTube'') afterNewDeploy)
     \<lparr>ended_listeners :=
        [\<lparr>playlist_urls = [''https://youtu.be/aaa'', ''https://youtu.be/bbb'', ''https://youtu.be/ccc''],
          currentIndex = 2\<rparr>]\<rparr>"
proof -
  let ?d = "setCurrentUrl ''https://youtu.be/fresh'' midSequence"
  let ?cl = "\<lparr>playlist_urls = [''https://youtu.be/aaa'', ''https://youtu.be/bbb'', ''https://youtu.be/ccc''],
       currentIndex = 1\<rparr>"
  have a: "currentUrl ?d \<noteq> []" by (simp add: setCurrentUrl_def)
  have b: "ended_listeners ?d = [?cl]" by code_simp
  have c: "coreDetectPlatform (newURL demoRuntime) ''https://youtu.be/ccc'' = Some ''YouTube''" by code_simp
  from single_deploy_keeps_playlist[OF a, of demoRuntime VIDEO_STAGE] b
  have "fireEnded demoRuntime (snd (handleDeploy demoRuntime VIDEO_STAGE ?d)) =
              (deployToVideoStage demoRuntime (playlist_urls ?cl ! (currentIndex ?cl + 1))
                 (coreDetectPlatform (newURL demoRuntime) (playlist_urls ?cl ! (currentIndex ?cl + 1)))
                 (snd (handleDeploy demoRuntime VIDEO_STAGE ?d)))
              \<lparr>ended_listeners := [?cl\<lparr>currentIndex := currentIndex ?cl + 1\<rparr>]\<rparr>"
    by simp
  then show ?thesis using a b c by (simp add: afterNewDeploy_def)
qed

text \<open>
  C4 does not hold as stated: for an address that the URL constructor refuses, the promise
  of \<open>handleDeploy\<close> is fulfilled, not rejected, and the caller's \<open>onDeploy\<close> callback is
  called as after any deployment.
\<close>

theorem malformed_url_counterexample:
  "validateUrl plainURL ''not a url'' = False \<and>
   handleDeploy demoRuntime VIDEO_STAGE (setCurrentUrl ''not a url'' freshDeployer) =
     (None, (setCurrentUrl ''not a url'' freshDeployer)
        \<lparr>onDeploy_calls :=
           [\<lparr>data_type = TypeUrl, data_mode = VIDEO_STAGE, data_url = Some ''not a url'', data_file = None,
             data_fileContent = None, data_urls = None, data_platform = Some ''Generic''\<rparr>]\<rparr>)"
  by code_simp

text \<open>
  C4, as the code has it. \<open>handleDeploy\<close> does not validate the address. For a non-empty
  address that the URL constructor refuses, platform detection yields nothing and the
  request is treated as generic; when no module is registered under that name, no module
  is called, neither the stage nor the embed surface receives anything, no playlist is
  registered, and \<open>onDeploy\<close> is called with the platform \<open>Generic\<close>; no error is reported.
  The dialog, for its part, hands no address to the core that \<open>validateUrl\<close> refuses.
\<close>

theorem malformed_url_reaches_no_surface:
  assumes "currentUrl d \<noteq> []" and "newURL rt (currentUrl d) = None"
      and "getModule (modules rt) ''Generic'' = None"
  shows "handleDeploy rt EMBED d =
           (None, d\<lparr>onDeploy_calls := onDeploy_calls d @
              [\<lparr>data_type = TypeUrl, data_mode = EMBED, data_url = Some (currentUrl d), data_file = None,
                data_fileContent = None, data_urls = None, data_platform = Some ''Generic''\<rparr>]\<rparr>) \<and>
         fst (handleDeploy rt VIDEO_STAGE d) = None \<and>
         source_src (snd (handleDeploy rt VIDEO_STAGE d)) = source_src d \<and>
         stage_calls (snd (handleDeploy rt VIDEO_STAGE d)) = stage_calls d \<and>
         embed_windows (snd (handleDeploy rt VIDEO_STAGE d)) = embed_windows d \<and>
         ended_listeners (snd (handleDeploy rt VIDEO_STAGE d)) = ended_listeners d \<and>
         onDeploy_calls (snd (handleDeploy rt VIDEO_STAGE d)) = onDeploy_calls d @
              [\<lparr>data_type = TypeUrl, data_mode = VIDEO_STAGE, data_url = Some (currentUrl d), data_file = None,
                data_fileContent = None, data_urls = None, data_platform = Some ''Generic''\<rparr>] \<and>
         (\<not> validateUrl (newURL rt) v \<longrightarrow> currentUrl (handleUrlChange (newURL rt) v d') = [])"
  using assms
  by (simp add: handleDeploy_def deploySingleUrl_def deployToEmbed_def deployToVideoStage_def
      coreDetectPlatform_def orGeneric_def Let_def handleUrlChange_def setCurrentUrl_def)

theorem malformed_url_reaches_no_surface_witness:
  "\<not> validateUrl (newURL demoRuntime) ''not a url'' \<and>
   currentUrl (handleUrlChange (newURL demoRuntime) ''not a url'' freshDeployer) = [] \<and>
   currentUrl (setCurrentUrl ''not a url'' freshDeployer) \<noteq> [] \<and>
   newURL demoRuntime (currentUrl (setCurrentUrl ''not a url'' freshDeployer)) = None \<and>
   getModule (modules demoRuntime) ''Generic'' = None \<and>
   handleDeploy demoRuntime EMBED (setCurrentUrl ''not a url'' freshDeployer) =
     (None, (setCurrentUrl ''not a url'' freshDeployer)
        \<lparr>onDeploy_calls :=
           [\<lparr>data_type = TypeUrl, data_mode = EMBED, data_url = Some ''not a url'', data_file = None,
             data_fileContent = None, data_urls = None, data_platform = Some ''Generic''\<rparr>]\<rparr>)"
proof -
  let ?d = "setCurrentUrl ''not a url'' freshDeployer"
  have a: "currentUrl ?d \<noteq> []" by (simp add: setCurrentUrl_def)
  have b: "newURL demoRuntime (currentUrl ?d) = None" by code_simp
  have "map_option mod_name (getModule (modules demoRuntime) ''Generic'') = None" by code_simp
  then have c: "getModule (modules demoRuntime) ''Generic'' = None" by simp
  have e: "onDeploy_calls ?d = []" "currentUrl ?d = ''not a url''"
    by (simp_all add: setCurrentUrl_def freshDeployer_def)
  have f: "\<not> validateUrl (newURL demoRuntime) ''not a url''" by code_simp
  have g: "currentUrl (handleUrlChange (newURL demoRuntime) ''not a url'' freshDeployer) = []"
    using malformed_url_reaches_no_surface[OF a b c, of "''not a url''" freshDeployer] f by blast
  have h: "handleDeploy demoRuntime EMBED ?d =
     (None, ?d\<lparr>onDeploy_calls := onDeploy_calls ?d @
        [\<lparr>data_type = TypeUrl, data_mode = EMBED, data_url = Some (currentUrl ?d), data_file = None,
          data_fileContent = None, data_urls = None, data_platform = Some ''Generic''\<rparr>]\<rparr>)"
    using malformed_url_reaches_no_surface[OF a b c, of "''not a url''" freshDeployer] by blast
  from a b c f g h e show ?thesis by simp
qed

end
